theory Spec2Isabelle
  imports
    Main
    "HOL-Library.Char_ord"
    "HOL-Library.List_Lexorder"
    "HOL-Library.Product_Lexorder"
    "HOL-Library.Sublist"
    "HOL-Library.Multiset"
begin

section \<open>circdown: the firmware catalog model\<close>

text \<open>
  A shallow embedding of \<^verbatim>\<open>circdown.py\<close>. Python strings are modelled as
  \<^typ>\<open>string\<close> (the UTF-8 bytes of the text): the character classes of the three regular
  expressions are ASCII only, the separators \<^verbatim>\<open>/\<close>, \<^verbatim>\<open>-\<close>, \<^verbatim>\<open>.\<close> and the newline
  are ASCII, and byte-wise lexicographic comparison of UTF-8 agrees with Python's
  comparison of strings by code point.
\<close>

subsection \<open>Exceptions\<close>

text \<open>
  The exceptions the modelled code can raise: \<^verbatim>\<open>AttributeError\<close> (a method call on
  \<^verbatim>\<open>None\<close>), \<^verbatim>\<open>ValueError\<close> (unpacking a list of the wrong length, or raised by the
  URL library) and \<^verbatim>\<open>IndexError\<close> (a list index out of range).
\<close>

datatype error = AttributeError | ValueError | IndexError

subsection \<open>String primitives of Python\<close>

text \<open>\<^verbatim>\<open>sub in s\<close>: \<^verbatim>\<open>sub\<close> occurs in \<^verbatim>\<open>s\<close> as a contiguous run.\<close>

fun startswith :: "string \<Rightarrow> string \<Rightarrow> bool" where
  "startswith s [] = True"
| "startswith [] (p # ps) = False"
| "startswith (c # cs) (p # ps) = (c = p \<and> startswith cs ps)"

fun contains :: "string \<Rightarrow> string \<Rightarrow> bool" where
  "contains sub [] = (sub = [])"
| "contains sub (c # cs) = (startswith (c # cs) sub \<or> contains sub cs)"

text \<open>\<^verbatim>\<open>s.endswith(suf)\<close>: the last \<^verbatim>\<open>len(suf)\<close> characters of \<^verbatim>\<open>s\<close> are \<^verbatim>\<open>suf\<close>.\<close>

definition endswith :: "string \<Rightarrow> string \<Rightarrow> bool" where
  "endswith s suf \<longleftrightarrow>
     length suf \<le> length s \<and> drop (length s - length suf) s = suf"

text \<open>
  \<^verbatim>\<open>s.split(sep)\<close> for a one-character separator: the pieces between the separators,
  never an empty list. \<open>split_max\<close> is \<^verbatim>\<open>s.split(sep, maxsplit)\<close>: at most
  \<^verbatim>\<open>maxsplit\<close> cuts, from the left, the last piece keeping the remaining separators.
\<close>

fun split :: "char \<Rightarrow> string \<Rightarrow> string list" where
  "split sep [] = [[]]"
| "split sep (c # cs) =
     (if c = sep then [] # split sep cs
      else (case split sep cs of
              [] \<Rightarrow> [[c]]
            | w # ws \<Rightarrow> (c # w) # ws))"

fun split_max :: "char \<Rightarrow> nat \<Rightarrow> string \<Rightarrow> string list" where
  "split_max sep 0 s = [s]"
| "split_max sep (Suc n) [] = [[]]"
| "split_max sep (Suc n) (c # cs) =
     (if c = sep then [] # split_max sep n cs
      else (case split_max sep (Suc n) cs of
              [] \<Rightarrow> [[c]]
            | w # ws \<Rightarrow> (c # w) # ws))"

text \<open>\<^verbatim>\<open>xs[-2]\<close>: the last element but one, \<^verbatim>\<open>IndexError\<close> on a shorter list.\<close>

fun index_minus_2 :: "'a list \<Rightarrow> error + 'a" where
  "index_minus_2 [] = Inl IndexError"
| "index_minus_2 [x] = Inl IndexError"
| "index_minus_2 [x, y] = Inr x"
| "index_minus_2 (x # y # z # zs) = index_minus_2 (y # z # zs)"

subsection \<open>The regular expressions of \<^verbatim>\<open>ImageInfo\<close>\<close>

text \<open>The character classes \<^verbatim>\<open>[0-9]\<close>, \<^verbatim>\<open>[A-Za-z]\<close> and \<^verbatim>\<open>[0-9A-Za-z]\<close>.\<close>

definition is_digit :: "char \<Rightarrow> bool" where
  "is_digit c \<longleftrightarrow> CHR ''0'' \<le> c \<and> c \<le> CHR ''9''"

definition is_letter :: "char \<Rightarrow> bool" where
  "is_letter c \<longleftrightarrow> (CHR ''A'' \<le> c \<and> c \<le> CHR ''Z'') \<or> (CHR ''a'' \<le> c \<and> c \<le> CHR ''z'')"

definition is_alnum :: "char \<Rightarrow> bool" where
  "is_alnum c \<longleftrightarrow> is_digit c \<or> is_letter c"

text \<open>
  Each pattern is embedded as the automaton that reads the subject from the left. The
  patterns have no alternatives that overlap (after a run of digits only a dot can follow,
  after a dot only a digit or a letter), so the backtracking matcher of \<^verbatim>\<open>re\<close> finds a
  match exactly when the automaton accepts.

  \<^verbatim>\<open>RELEASE_REGEX = ^[0-9]+(?:\.[0-9]+)+\<close>, used with \<^verbatim>\<open>match\<close>: a prefix of the
  subject has to match, so the automaton accepts as soon as the first digit after a dot
  is read.
\<close>

datatype release_state = Int_start | Int_more | After_dot

fun RELEASE_REGEX_from :: "release_state \<Rightarrow> string \<Rightarrow> bool" where
  "RELEASE_REGEX_from st [] = False"
| "RELEASE_REGEX_from Int_start (c # cs) =
     (if is_digit c then RELEASE_REGEX_from Int_more cs else False)"
| "RELEASE_REGEX_from Int_more (c # cs) =
     (if is_digit c then RELEASE_REGEX_from Int_more cs
      else if c = CHR ''.'' then RELEASE_REGEX_from After_dot cs
      else False)"
| "RELEASE_REGEX_from After_dot (c # cs) = is_digit c"

definition RELEASE_REGEX :: "string \<Rightarrow> bool" where
  "RELEASE_REGEX s = RELEASE_REGEX_from Int_start s"

text \<open>
  \<^verbatim>\<open>FULL_RELEASE_REGEX = ^[0-9]+(?:\.[0-9]+)*$\<close>: the whole subject is matched, where
  \<^verbatim>\<open>$\<close> of Python also matches just before a newline that ends the subject.
\<close>

fun FULL_RELEASE_REGEX_from :: "release_state \<Rightarrow> string \<Rightarrow> bool" where
  "FULL_RELEASE_REGEX_from Int_more [] = True"
| "FULL_RELEASE_REGEX_from st [] = False"
| "FULL_RELEASE_REGEX_from Int_start (c # cs) =
     (if is_digit c then FULL_RELEASE_REGEX_from Int_more cs else False)"
| "FULL_RELEASE_REGEX_from Int_more (c # cs) =
     (if is_digit c then FULL_RELEASE_REGEX_from Int_more cs
      else if c = CHR ''.'' then FULL_RELEASE_REGEX_from After_dot cs
      else c = CHR 0x0A \<and> cs = [])"
| "FULL_RELEASE_REGEX_from After_dot (c # cs) =
     (if is_digit c then FULL_RELEASE_REGEX_from Int_more cs else False)"

definition FULL_RELEASE_REGEX :: "string \<Rightarrow> bool" where
  "FULL_RELEASE_REGEX s = FULL_RELEASE_REGEX_from Int_start s"

text \<open>
  \<^verbatim>\<open>FILETYPE_REGEX = ^(.*?)((?:\.[A-Za-z][0-9A-Za-z]*)+)$\<close>. The second group, followed
  by \<^verbatim>\<open>$\<close>, is the automaton \<open>FILETYPE_REGEX_group2\<close>, run on all that is left of the
  subject; it returns the text of the group, which leaves out a newline that ends the
  subject. The first group is lazy: the matcher tries the second group at the current
  position first and, when that fails, gives one more character to the first group, which
  takes any character but a newline.
\<close>

datatype suffix_state = Need_dot | Need_letter | In_segment

fun FILETYPE_REGEX_group2 :: "suffix_state \<Rightarrow> string \<Rightarrow> string option" where
  "FILETYPE_REGEX_group2 In_segment [] = Some []"
| "FILETYPE_REGEX_group2 st [] = None"
| "FILETYPE_REGEX_group2 Need_dot (c # cs) =
     (if c = CHR ''.'' then map_option (Cons c) (FILETYPE_REGEX_group2 Need_letter cs)
      else None)"
| "FILETYPE_REGEX_group2 Need_letter (c # cs) =
     (if is_letter c then map_option (Cons c) (FILETYPE_REGEX_group2 In_segment cs)
      else None)"
| "FILETYPE_REGEX_group2 In_segment (c # cs) =
     (if is_alnum c then map_option (Cons c) (FILETYPE_REGEX_group2 In_segment cs)
      else if c = CHR ''.'' then map_option (Cons c) (FILETYPE_REGEX_group2 Need_letter cs)
      else if c = CHR 0x0A \<and> cs = [] then Some []
      else None)"

fun FILETYPE_REGEX_from :: "string \<Rightarrow> string \<Rightarrow> (string \<times> string) option" where
  "FILETYPE_REGEX_from g1 [] = None"
| "FILETYPE_REGEX_from g1 (c # cs) =
     (case FILETYPE_REGEX_group2 Need_dot (c # cs) of
        Some g2 \<Rightarrow> Some (g1, g2)
      | None \<Rightarrow> if c = CHR 0x0A then None else FILETYPE_REGEX_from (g1 @ [c]) cs)"

text \<open>\<^verbatim>\<open>FILETYPE_REGEX.match(s)\<close>: \<open>None\<close>, or the two groups of the match.\<close>

definition FILETYPE_REGEX :: "string \<Rightarrow> (string \<times> string) option" where
  "FILETYPE_REGEX s = FILETYPE_REGEX_from [] s"

subsection \<open>\<^verbatim>\<open>ImageInfo\<close>\<close>

text \<open>
  A \<^verbatim>\<open>datetime\<close> with a time zone, and the \<^verbatim>\<open>date\<close> it gives: year, month and day as
  they are written in the timestamp. Python compares dates as these triples.
\<close>

record datetime =
  year :: nat
  month :: nat
  day :: nat
  hour :: nat
  minute :: nat
  second :: nat
  microsecond :: nat
  utcoffset :: int

definition date :: "datetime \<Rightarrow> nat \<times> nat \<times> nat" where
  "date dt = (year dt, month dt, day dt)"

text \<open>
  The slots of \<^verbatim>\<open>ImageInfo\<close>. \<^verbatim>\<open>size\<close> and \<^verbatim>\<open>mdate\<close> default to \<^verbatim>\<open>None\<close> in
  \<^verbatim>\<open>from_url\<close>.
\<close>

record ImageInfo =
  name :: string
  url :: string
  size' :: "int option"
  mdate :: "datetime option"
  board :: string
  language :: string
  version :: string
  type :: string

definition is_rc :: "ImageInfo \<Rightarrow> bool" where
  "is_rc self = contains ''rc'' (version self)"

definition is_alpha :: "ImageInfo \<Rightarrow> bool" where
  "is_alpha self = contains ''alpha'' (version self)"

definition is_release :: "ImageInfo \<Rightarrow> bool" where
  "is_release self = RELEASE_REGEX (version self)"

definition is_full_release :: "ImageInfo \<Rightarrow> bool" where
  "is_full_release self = FULL_RELEASE_REGEX (version self)"

text \<open>
  \<^verbatim>\<open>ImageInfo.from_url\<close>. The path component of the URL comes from the URL library
  (\<^verbatim>\<open>requests.compat.urlparse(url).path\<close>), which is not part of the program: it is the
  parameter \<open>urlparse\<close>, a function from the URL to its path or to the exception the
  library raises. \<^verbatim>\<open>match(filename)\<close> is \<^verbatim>\<open>None\<close> when the name has no type suffix, and
  \<^verbatim>\<open>.groups()\<close> on it raises \<^verbatim>\<open>AttributeError\<close>; unpacking \<^verbatim>\<open>name.split('-', 4)\<close> into
  five targets raises \<^verbatim>\<open>ValueError\<close> when the list is shorter.
\<close>

definition from_url ::
  "(string \<Rightarrow> error + string) \<Rightarrow> string \<Rightarrow> int option \<Rightarrow> datetime option
     \<Rightarrow> error + ImageInfo" where
  "from_url urlparse u sz md =
     (case urlparse u of
        Inl e \<Rightarrow> Inl e
      | Inr path \<Rightarrow>
          (let filename = last (split CHR ''/'' path) in
           (case FILETYPE_REGEX filename of
              None \<Rightarrow> Inl AttributeError
            | Some (nm, ty) \<Rightarrow>
                (case split_max CHR ''-'' 4 nm of
                   [_, _, b, l, v] \<Rightarrow>
                     Inr \<lparr>name = filename, url = u, size' = sz, mdate = md,
                          board = b, language = l, version = v, type = ty\<rparr>
                 | _ \<Rightarrow> Inl ValueError))))"

subsection \<open>The URL library\<close>

text \<open>
  A model of \<^verbatim>\<open>urllib.parse.urlparse(url).path\<close>, for running \<open>from_url\<close> on concrete
  URLs: the scheme up to the first colon is cut off when it is a letter followed by scheme
  characters, then the authority after \<^verbatim>\<open>//\<close>, then the fragment after \<^verbatim>\<open>#\<close>, the query
  after \<^verbatim>\<open>?\<close> and, for the schemes that have them, the parameters after the first \<^verbatim>\<open>;\<close>
  of the last path segment. An authority with one square bracket but not the other raises
  \<^verbatim>\<open>ValueError\<close>. The library's removal of tabs, carriage returns and newlines from the
  URL and its further checks of a host in square brackets are left out: the model is the
  library on URLs without control characters and without brackets, and it is run on such
  URLs only. No property below is stated of it; the properties of \<open>from_url\<close> hold for
  any function in the place of \<open>urlparse\<close>.
\<close>

definition scheme_chars :: string where
  "scheme_chars = ''abcdefghijklmnopqrstuvwxyzABCDEFGHIJKLMNOPQRSTUVWXYZ0123456789+-.''"

definition uses_params :: "string list" where
  "uses_params = ['''', ''ftp'', ''hdl'', ''prospero'', ''http'', ''imap'', ''https'',
     ''shttp'', ''rtsp'', ''rtspu'', ''sip'', ''sips'', ''mms'', ''sftp'', ''tel'']"

definition lower :: "char \<Rightarrow> char" where
  "lower c = (if CHR ''A'' \<le> c \<and> c \<le> CHR ''Z'' then char_of (of_char c + (32::nat)) else c)"

definition split_scheme :: "string \<Rightarrow> string \<times> string" where
  "split_scheme u =
     (let pre = takeWhile (\<lambda>c. c \<noteq> CHR '':'') u in
      if pre \<noteq> [] \<and> length pre < length u \<and> is_letter (hd pre)
         \<and> list_all (\<lambda>c. c \<in> set scheme_chars) pre
      then (map lower pre, drop (Suc (length pre)) u)
      else ([], u))"

definition split_netloc :: "string \<Rightarrow> string \<times> string" where
  "split_netloc u =
     (if take 2 u = ''//''
      then (let rest = drop 2 u;
                netloc = takeWhile (\<lambda>c. c \<notin> set ''/?#'') rest
            in (netloc, drop (length netloc) rest))
      else ([], u))"

definition split_params :: "string \<Rightarrow> string" where
  "split_params u =
     (let seg = last (split CHR ''/'' u)
      in take (length u - length seg) u @ takeWhile (\<lambda>c. c \<noteq> CHR '';'') seg)"

definition urlparse_path :: "string \<Rightarrow> error + string" where
  "urlparse_path u =
     (let (scheme, u1) = split_scheme u;
          (netloc, u2) = split_netloc u1
      in if (CHR ''['' \<in> set netloc) \<noteq> (CHR '']'' \<in> set netloc) then Inl ValueError
         else (let u3 = takeWhile (\<lambda>c. c \<noteq> CHR ''#'') u2;
                   u4 = takeWhile (\<lambda>c. c \<noteq> CHR ''?'') u3
               in Inr (if scheme \<in> set uses_params then split_params u4 else u4)))"

text \<open>
  \<^verbatim>\<open>urllib.parse.urljoin(base, key)\<close> for a base that is a scheme and a host with an empty
  path and a key that is a relative path of plain segments (no scheme, authority, query,
  fragment or dot segments), which is what the keys and prefixes of the bucket are: the
  key is put under the root of the host. For any other base or reference (an absolute or
  network-path reference, a base with a path, dot segments) the library does otherwise;
  the definition is run on the keys and prefixes of the sample bucket only, and the
  properties of the listing functions hold for any function in the place of \<open>urljoin\<close>.
\<close>

definition urljoin_key :: "string \<Rightarrow> string \<Rightarrow> string" where
  "urljoin_key base key = base @ ''/'' @ key"

subsection \<open>\<^verbatim>\<open>S3\<close> and \<^verbatim>\<open>FirmwareDownloader\<close>\<close>

text \<open>
  The listing document after the XML layer: the \<^verbatim>\<open>Contents\<close> entries with their
  \<^verbatim>\<open>Key\<close>, \<^verbatim>\<open>Size\<close> and \<^verbatim>\<open>LastModified\<close> already read as a string, an integer and a
  timestamp, and the \<^verbatim>\<open>Prefix\<close> of each \<^verbatim>\<open>CommonPrefixes\<close> entry. The object holds the
  bucket URL; the answer of the storage service to \<^verbatim>\<open>list(path)\<close> is the field
  \<open>list'\<close>, a function of the path.
\<close>

record listing =
  Contents :: "(string \<times> int \<times> datetime) list"
  CommonPrefixes :: "string list"

record S3 =
  bucket_url :: string
  list' :: "string \<Rightarrow> listing"

text \<open>
  A generator is modelled by what it yields, in order, and by the exception that ends it,
  if one does.
\<close>

type_synonym 'a generator = "'a list \<times> error option"

definition parse_contents ::
  "(string \<Rightarrow> string \<Rightarrow> string) \<Rightarrow> S3 \<Rightarrow> listing \<Rightarrow> (string \<times> int \<times> datetime) list" where
  "parse_contents urljoin self doc =
     map (\<lambda>(key, sz, lm). (urljoin (bucket_url self) key, sz, lm)) (Contents doc)"

definition parse_common_prefixes ::
  "(string \<Rightarrow> string \<Rightarrow> string) \<Rightarrow> S3 \<Rightarrow> listing \<Rightarrow> string list" where
  "parse_common_prefixes urljoin self doc = map (urljoin (bucket_url self)) (CommonPrefixes doc)"

text \<open>
  The loop of \<^verbatim>\<open>list_boards\<close> and of \<^verbatim>\<open>list_languages\<close> (the two bodies are the same):
  for each key that passes the search, yield \<^verbatim>\<open>key.split('/')[-2]\<close>.
\<close>

fun yield_names :: "string option \<Rightarrow> string list \<Rightarrow> string generator" where
  "yield_names search [] = ([], None)"
| "yield_names search (key # keys) =
     (if (case search of None \<Rightarrow> True | Some s \<Rightarrow> contains s key)
      then (case index_minus_2 (split CHR ''/'' key) of
              Inl e \<Rightarrow> ([], Some e)
            | Inr nm \<Rightarrow> (case yield_names search keys of (ys, e) \<Rightarrow> (nm # ys, e)))
      else yield_names search keys)"

definition list_boards ::
  "(string \<Rightarrow> string \<Rightarrow> string) \<Rightarrow> S3 \<Rightarrow> string option \<Rightarrow> string generator" where
  "list_boards urljoin self search =
     (let boards = list' self ''bin/''
      in yield_names search (parse_common_prefixes urljoin self boards))"

definition list_languages ::
  "(string \<Rightarrow> string \<Rightarrow> string) \<Rightarrow> S3 \<Rightarrow> string \<Rightarrow> string option \<Rightarrow> string generator" where
  "list_languages urljoin self b search =
     (let languages = list' self (''bin/'' @ b @ ''/'')
      in yield_names search (parse_common_prefixes urljoin self languages))"

text \<open>The list comprehension of \<^verbatim>\<open>list_images\<close>: the first name that fails ends it.\<close>

fun from_urls ::
  "(string \<Rightarrow> error + string) \<Rightarrow> (string \<times> int \<times> datetime) list \<Rightarrow> error + ImageInfo list" where
  "from_urls urlparse [] = Inr []"
| "from_urls urlparse ((key, sz, dt) # rest) =
     (case from_url urlparse key (Some sz) (Some dt) of
        Inl e \<Rightarrow> Inl e
      | Inr img \<Rightarrow>
          (case from_urls urlparse rest of
             Inl e \<Rightarrow> Inl e
           | Inr images \<Rightarrow> Inr (img # images)))"

definition list_images ::
  "(string \<Rightarrow> string \<Rightarrow> string) \<Rightarrow> (string \<Rightarrow> error + string) \<Rightarrow> S3 \<Rightarrow> string \<Rightarrow> string
     \<Rightarrow> error + ImageInfo list" where
  "list_images urljoin urlparse self b l =
     (let images = list' self (''bin/'' @ b @ ''/'' @ l @ ''/'')
      in from_urls urlparse (parse_contents urljoin self images))"

fun yield_versions :: "string option \<Rightarrow> ImageInfo list \<Rightarrow> string list" where
  "yield_versions search [] = []"
| "yield_versions search (img # images) =
     (if (case search of None \<Rightarrow> True | Some s \<Rightarrow> contains s (version img))
      then (if is_release img
            then version img # yield_versions search images
            else yield_versions search images)
      else yield_versions search images)"

definition list_versions ::
  "(string \<Rightarrow> string \<Rightarrow> string) \<Rightarrow> (string \<Rightarrow> error + string) \<Rightarrow> S3 \<Rightarrow> string \<Rightarrow> string
     \<Rightarrow> string option \<Rightarrow> string generator" where
  "list_versions urljoin urlparse self b l search =
     (case list_images urljoin urlparse self b l of
        Inl e \<Rightarrow> ([], Some e)
      | Inr images \<Rightarrow> (yield_versions search images, None))"

subsection \<open>The \<^verbatim>\<open>get\<close> command of \<^verbatim>\<open>main\<close>\<close>

text \<open>The options of \<^verbatim>\<open>get\<close>, as \<^verbatim>\<open>argparse\<close> hands them over.\<close>

record options =
  opt_board :: string
  opt_language :: string
  opt_version :: "string option"
  opt_type :: "string option"
  opt_prerelease :: bool
  opt_latest :: bool

text \<open>
  \<^verbatim>\<open>sorted(xs, key=key, reverse=True)\<close>: the keys are computed first, for every element
  (the first one that raises ends the call), then the list is reversed, sorted by a
  stable ascending sort and reversed again, which is how the interpreter keeps the
  original order among equal keys.
\<close>

fun decorate :: "('a \<Rightarrow> error + 'k) \<Rightarrow> 'a list \<Rightarrow> error + ('k \<times> 'a) list" where
  "decorate key [] = Inr []"
| "decorate key (x # xs) =
     (case key x of
        Inl e \<Rightarrow> Inl e
      | Inr k \<Rightarrow>
          (case decorate key xs of
             Inl e \<Rightarrow> Inl e
           | Inr kxs \<Rightarrow> Inr ((k, x) # kxs)))"

definition sorted_reverse :: "('a \<Rightarrow> error + 'k::linorder) \<Rightarrow> 'a list \<Rightarrow> error + 'a list" where
  "sorted_reverse key xs =
     (case decorate key xs of
        Inl e \<Rightarrow> Inl e
      | Inr kxs \<Rightarrow> Inr (map snd (rev (sort_key fst (rev kxs)))))"

text \<open>
  The three key functions of \<^verbatim>\<open>main\<close>. \<^verbatim>\<open>r.mdate.date()\<close> raises \<^verbatim>\<open>AttributeError\<close>
  when \<^verbatim>\<open>mdate\<close> is \<^verbatim>\<open>None\<close>.
\<close>

definition key_date_version :: "ImageInfo \<Rightarrow> error + ((nat \<times> nat \<times> nat) \<times> string)" where
  "key_date_version r =
     (case mdate r of None \<Rightarrow> Inl AttributeError | Some m \<Rightarrow> Inr (date m, version r))"

definition key_type :: "ImageInfo \<Rightarrow> error + string" where
  "key_type r = Inr (type r)"

definition key_date :: "ImageInfo \<Rightarrow> error + (nat \<times> nat \<times> nat)" where
  "key_date r = (case mdate r of None \<Rightarrow> Inl AttributeError | Some m \<Rightarrow> Inr (date m))"

definition sort_results :: "ImageInfo list \<Rightarrow> error + ImageInfo list" where
  "sort_results images =
     (case sorted_reverse key_date_version images of
        Inl e \<Rightarrow> Inl e
      | Inr results1 \<Rightarrow>
          (case sorted_reverse key_type results1 of
             Inl e \<Rightarrow> Inl e
           | Inr results2 \<Rightarrow> sorted_reverse key_date results2))"

text \<open>The three conditions of the comprehension that builds \<^verbatim>\<open>filtered\<close>.\<close>

definition type_ok :: "options \<Rightarrow> ImageInfo \<Rightarrow> bool" where
  "type_ok opts img = (case opt_type opts of None \<Rightarrow> True | Some t \<Rightarrow> endswith (type img) t)"

definition version_ok :: "options \<Rightarrow> ImageInfo \<Rightarrow> bool" where
  "version_ok opts img = (case opt_version opts of None \<Rightarrow> True | Some v \<Rightarrow> version img = v)"

definition release_ok :: "options \<Rightarrow> ImageInfo \<Rightarrow> bool" where
  "release_ok opts img \<longleftrightarrow>
     opt_prerelease opts \<or> is_full_release img \<or> opt_latest opts \<or> is_release img"

fun filtered :: "options \<Rightarrow> ImageInfo list \<Rightarrow> ImageInfo list" where
  "filtered opts [] = []"
| "filtered opts (img # results) =
     (if type_ok opts img
      then (if version_ok opts img
            then (if release_ok opts img
                  then img # filtered opts results
                  else filtered opts results)
            else filtered opts results)
      else filtered opts results)"

text \<open>
  What \<^verbatim>\<open>get\<close> ends with: the download of the selected image, or the message that no
  image was found.
\<close>

datatype outcome = Download ImageInfo | No_images_found

definition selected :: "ImageInfo list \<Rightarrow> outcome" where
  "selected flt = (case flt of [] \<Rightarrow> No_images_found | img # _ \<Rightarrow> Download img)"

definition select :: "options \<Rightarrow> ImageInfo list \<Rightarrow> error + outcome" where
  "select opts images =
     (case sort_results images of
        Inl e \<Rightarrow> Inl e
      | Inr results \<Rightarrow> Inr (selected (filtered opts results)))"

text \<open>A type given without its leading dot gets one; an empty type is left as it is.\<close>

definition normalize_type :: "options \<Rightarrow> options" where
  "normalize_type opts =
     (case opt_type opts of
        None \<Rightarrow> opts
      | Some t \<Rightarrow>
          if t \<noteq> [] \<and> \<not> startswith t ''.'' then opts\<lparr>opt_type := Some (''.'' @ t)\<rparr> else opts)"

definition get ::
  "(string \<Rightarrow> string \<Rightarrow> string) \<Rightarrow> (string \<Rightarrow> error + string) \<Rightarrow> S3 \<Rightarrow> options
     \<Rightarrow> error + outcome" where
  "get urljoin urlparse cp opts0 =
     (let opts = normalize_type opts0 in
      (case list_images urljoin urlparse cp (opt_board opts) (opt_language opts) of
         Inl e \<Rightarrow> Inl e
       | Inr images \<Rightarrow> select opts images))"

section \<open>Specification-level notions\<close>

text \<open>
  The shape of a name as the data model words it: a type suffix of one or more
  dot-prefixed segments, each starting with a letter, after a stem of exactly five fields
  separated by dashes.
\<close>

definition type_suffix_shape :: "string \<Rightarrow> bool" where
  "type_suffix_shape ty \<longleftrightarrow>
     (case split CHR ''.'' ty of
        [] \<Rightarrow> False
      | first # segs \<Rightarrow>
          first = [] \<and> segs \<noteq> [] \<and> list_all (\<lambda>seg. seg \<noteq> [] \<and> is_letter (hd seg)) segs)"

definition five_field_shape :: "string \<Rightarrow> bool" where
  "five_field_shape nm \<longleftrightarrow>
     list_ex (\<lambda>i. type_suffix_shape (drop i nm) \<and> length (split CHR ''-'' (take i nm)) = 5)
       [0..<Suc (length nm)]"

text \<open>
  A string that the second group of \<open>FILETYPE_REGEX\<close> matches in full: one or more
  segments of a dot, a letter and then letters or digits.
\<close>

definition is_type_suffix :: "string \<Rightarrow> bool" where
  "is_type_suffix ty \<longleftrightarrow> FILETYPE_REGEX_group2 Need_dot ty = Some ty"

text \<open>A decimal integer: one or more digits.\<close>

definition number :: "string \<Rightarrow> bool" where
  "number seg \<longleftrightarrow> seg \<noteq> [] \<and> list_all is_digit seg"

text \<open>
  One segment of a type suffix, without its dot: a letter, then letters or digits.
\<close>

definition extension_segment :: "string \<Rightarrow> bool" where
  "extension_segment seg \<longleftrightarrow> seg \<noteq> [] \<and> is_letter (hd seg) \<and> list_all is_alnum seg"

text \<open>Some non-empty suffix of the string is a type suffix.\<close>

definition ends_in_type_suffix :: "string \<Rightarrow> bool" where
  "ends_in_type_suffix s \<longleftrightarrow> list_ex (\<lambda>k. is_type_suffix (drop k s)) [0..<length s]"

text \<open>The condition for keeping a record, as the selection algorithm words it.\<close>

definition spec_keeps :: "options \<Rightarrow> ImageInfo \<Rightarrow> bool" where
  "spec_keeps opts img \<longleftrightarrow>
     (case opt_type opts of None \<Rightarrow> True | Some t \<Rightarrow> suffix t (type img))
     \<and> (case opt_version opts of None \<Rightarrow> True | Some v \<Rightarrow> version img = v)
     \<and> (opt_prerelease opts \<or> is_full_release img \<or> opt_latest opts \<or> is_release img)"

text \<open>
  The versions to list, as the query layer words it: the releases among the images whose
  version holds the search string, if one is given.
\<close>

definition spec_versions :: "string option \<Rightarrow> ImageInfo list \<Rightarrow> string list" where
  "spec_versions search images =
     map version
       (filter (\<lambda>img. is_release img
                  \<and> (case search of None \<Rightarrow> True | Some s \<Rightarrow> sublist s (version img)))
          images)"

text \<open>What is left of a string after its \<open>n\<close>-th separator.\<close>

fun after_sep :: "char \<Rightarrow> nat \<Rightarrow> string \<Rightarrow> string" where
  "after_sep sep 0 s = s"
| "after_sep sep (Suc n) s = after_sep sep n (drop 1 (dropWhile (\<lambda>c. c \<noteq> sep) s))"

text \<open>The single sort key that the three sorts of \<^verbatim>\<open>main\<close> are compared with.\<close>

definition key_date_type_version ::
  "ImageInfo \<Rightarrow> error + ((nat \<times> nat \<times> nat) \<times> string \<times> string)" where
  "key_date_type_version r =
     (case mdate r of None \<Rightarrow> Inl AttributeError | Some m \<Rightarrow> Inr (date m, type r, version r))"

section \<open>A sample bucket\<close>

definition sample_time :: "nat \<Rightarrow> nat \<Rightarrow> nat \<Rightarrow> datetime" where
  "sample_time y m d =
     \<lparr>year = y, month = m, day = d, hour = 12, minute = 0, second = 0, microsecond = 0,
      utcoffset = 0\<rparr>"

definition sample_listing :: "string \<Rightarrow> listing" where
  "sample_listing path =
     (if path = ''bin/''
      then \<lparr>Contents = [], CommonPrefixes = [''bin/feather_m4_express/'', ''bin/pyportal/'']\<rparr>
      else if path = ''bin/pyportal/''
      then \<lparr>Contents = [],
            CommonPrefixes = [''bin/pyportal/de_DE/'', ''bin/pyportal/en_US/'']\<rparr>
      else if path = ''bin/pyportal/en_US/''
      then \<lparr>Contents =
              [(''bin/pyportal/en_US/adafruit-circuitpython-pyportal-en_US-7.3.1.uf2'',
                  1024, sample_time 2022 6 1),
               (''bin/pyportal/en_US/adafruit-circuitpython-pyportal-en_US-8.0.0-beta.1.bin'',
                  1024, sample_time 2022 9 1),
               (''bin/pyportal/en_US/adafruit-circuitpython-pyportal-en_US-8.0.0-beta.1.uf2'',
                  1024, sample_time 2022 9 1),
               (''bin/pyportal/en_US/adafruit-circuitpython-pyportal-en_US-20220901-abc123.uf2'',
                  1024, sample_time 2022 9 1)],
            CommonPrefixes = []\<rparr>
      else if path = ''bin/pyportal/de_DE/''
      then \<lparr>Contents =
              [(''bin/pyportal/de_DE/adafruit-circuitpython-pyportal-de_DE-20220901-abc123.uf2'',
                  1024, sample_time 2022 9 1)],
            CommonPrefixes = []\<rparr>
      else \<lparr>Contents = [], CommonPrefixes = []\<rparr>)"

definition sample_cp :: S3 where
  "sample_cp =
     \<lparr>bucket_url = ''https://adafruit-circuit-python.s3.amazonaws.com'',
      list' = sample_listing\<rparr>"

definition sample_image :: "string \<Rightarrow> string \<Rightarrow> string \<Rightarrow> datetime \<Rightarrow> ImageInfo" where
  "sample_image l v ty dt =
     \<lparr>name = ''adafruit-circuitpython-pyportal-'' @ l @ ''-'' @ v @ ty,
      url = ''https://adafruit-circuit-python.s3.amazonaws.com/bin/pyportal/'' @ l @ ''/''
              @ ''adafruit-circuitpython-pyportal-'' @ l @ ''-'' @ v @ ty,
      size' = Some 1024, mdate = Some dt,
      board = ''pyportal'', language = l, version = v, type = ty\<rparr>"

definition sample_options ::
  "string \<Rightarrow> string option \<Rightarrow> string option \<Rightarrow> bool \<Rightarrow> bool \<Rightarrow> options" where
  "sample_options l v ty pre lat =
     \<lparr>opt_board = ''pyportal'', opt_language = l, opt_version = v, opt_type = ty,
      opt_prerelease = pre, opt_latest = lat\<rparr>"

text \<open>The images of the sample bucket for \<^verbatim>\<open>pyportal\<close> and \<^verbatim>\<open>en_US\<close>, in listing order.\<close>

definition sample_images :: "ImageInfo list" where
  "sample_images =
     [sample_image ''en_US'' ''7.3.1'' ''.uf2'' (sample_time 2022 6 1),
      sample_image ''en_US'' ''8.0.0-beta.1'' ''.bin'' (sample_time 2022 9 1),
      sample_image ''en_US'' ''8.0.0-beta.1'' ''.uf2'' (sample_time 2022 9 1),
      sample_image ''en_US'' ''20220901-abc123'' ''.uf2'' (sample_time 2022 9 1)]"

text \<open>The same images in the order the three sorts of \<^verbatim>\<open>main\<close> give them.\<close>

definition sample_results :: "ImageInfo list" where
  "sample_results =
     [sample_image ''en_US'' ''8.0.0-beta.1'' ''.uf2'' (sample_time 2022 9 1),
      sample_image ''en_US'' ''20220901-abc123'' ''.uf2'' (sample_time 2022 9 1),
      sample_image ''en_US'' ''8.0.0-beta.1'' ''.bin'' (sample_time 2022 9 1),
      sample_image ''en_US'' ''7.3.1'' ''.uf2'' (sample_time 2022 6 1)]"

section \<open>Properties\<close>

subsection \<open>Character classes\<close>

lemma not_digit_dot: "\<not> is_digit CHR ''.''"
  by (simp add: is_digit_def)

lemma not_alnum_special:
  "\<not> is_alnum CHR ''.''" "\<not> is_alnum CHR ''-''" "\<not> is_alnum CHR 0x0A"
  "\<not> is_letter CHR ''.''" "\<not> is_letter CHR ''-''" "\<not> is_letter CHR 0x0A"
  by (simp_all add: is_alnum_def is_digit_def is_letter_def)

subsection \<open>String primitives\<close>

lemma startswith_iff_prefix: "startswith s p \<longleftrightarrow> prefix p s"
  by (induction s p rule: startswith.induct) auto

lemma contains_iff_sublist: "contains sub s \<longleftrightarrow> sublist sub s"
  by (induction s) (auto simp: startswith_iff_prefix sublist_Cons_right)

lemma endswith_iff_suffix: "endswith s suf \<longleftrightarrow> suffix suf s"
proof
  assume "endswith s suf"
  then have "s = take (length s - length suf) s @ suf"
    by (metis append_take_drop_id endswith_def)
  then show "suffix suf s" by (rule suffixI)
next
  assume "suffix suf s"
  then obtain zs where "s = zs @ suf" by (auto simp: suffix_def)
  then show "endswith s suf" by (simp add: endswith_def)
qed

lemma split_not_Nil: "split sep s \<noteq> []"
  by (induction s) (auto split: list.splits)

lemma split_no_sep: "sep \<notin> set s \<Longrightarrow> split sep s = [s]"
  by (induction s) auto

lemma length_split: "length (split sep s) = Suc (count_list s sep)"
  by (induction s) (auto split: list.splits)

lemma last_split_append: "last (split sep (a @ sep # b)) = last (split sep b)"
proof (induction a)
  case Nil
  then show ?case by (simp add: split_not_Nil)
next
  case (Cons c a)
  have "length (split sep (a @ sep # b)) \<ge> 2"
    by (simp add: length_split)
  then obtain w w' ws where "split sep (a @ sep # b) = w # w' # ws"
    by (cases "split sep (a @ sep # b)" rule: remdups_adj.cases) auto
  with Cons show ?case by auto
qed

lemma last_split_dir: "sep \<notin> set b \<Longrightarrow> last (split sep (a @ sep # b)) = b"
  by (simp add: last_split_append split_no_sep)

lemma split_max_not_Nil: "split_max sep n s \<noteq> []"
  by (induction sep n s rule: split_max.induct) (auto split: list.splits)

lemma split_max_field:
  "sep \<notin> set a \<Longrightarrow> split_max sep (Suc n) (a @ sep # rest) = a # split_max sep n rest"
  by (induction a) auto

lemma length_split_max: "length (split_max sep n s) = Suc (min n (count_list s sep))"
  by (induction sep n s rule: split_max.induct)
     (auto split: list.splits simp: split_max_not_Nil)

lemma last_split_max:
  "n \<le> count_list s sep \<Longrightarrow> last (split_max sep n s) = after_sep sep n s"
proof (induction sep n s rule: split_max.induct)
  case (1 sep s)
  then show ?case by simp
next
  case (2 sep n)
  then show ?case by simp
next
  case (3 sep n c cs)
  show ?case
  proof (cases "c = sep")
    case True
    with 3 show ?thesis by (simp add: split_max_not_Nil)
  next
    case False
    with 3 have le: "Suc n \<le> count_list cs sep" by simp
    then have "length (split_max sep (Suc n) cs) \<ge> 2"
      by (simp add: length_split_max)
    then obtain w w' ws where "split_max sep (Suc n) cs = w # w' # ws"
      by (cases "split_max sep (Suc n) cs" rule: remdups_adj.cases) auto
    with 3 False le show ?thesis by auto
  qed
qed

subsection \<open>Version classification\<close>

text \<open>
  What the two automata accept. The release pattern: a run of digits, a dot and a digit
  at the start of the version. The full release pattern: numbers separated by dots, and
  nothing else but for a newline at the end.
\<close>

lemma not_digit_newline: "\<not> is_digit CHR 0x0A"
  by (simp add: is_digit_def)

lemma RELEASE_REGEX_from_iff:
  "RELEASE_REGEX_from st s \<longleftrightarrow>
     (case st of
        Int_start \<Rightarrow>
          takeWhile is_digit s \<noteq> []
          \<and> (\<exists>c cs. dropWhile is_digit s = CHR ''.'' # c # cs \<and> is_digit c)
      | Int_more \<Rightarrow> (\<exists>c cs. dropWhile is_digit s = CHR ''.'' # c # cs \<and> is_digit c)
      | After_dot \<Rightarrow> (\<exists>c cs. s = c # cs \<and> is_digit c))"
  by (induction st s rule: RELEASE_REGEX_from.induct)
     (auto simp: not_digit_dot split: release_state.splits)

lemma RELEASE_REGEX_iff:
  "RELEASE_REGEX s \<longleftrightarrow>
     takeWhile is_digit s \<noteq> []
     \<and> (\<exists>c cs. dropWhile is_digit s = CHR ''.'' # c # cs \<and> is_digit c)"
  by (simp add: RELEASE_REGEX_def RELEASE_REGEX_from_iff)

lemma FULL_RELEASE_REGEX_from_iff:
  "CHR 0x0A \<notin> set s \<Longrightarrow>
   FULL_RELEASE_REGEX_from st s \<longleftrightarrow>
     (case st of
        Int_more \<Rightarrow>
          (case split CHR ''.'' s of
             [] \<Rightarrow> False
           | w # segs \<Rightarrow> list_all is_digit w \<and> list_all number segs)
      | _ \<Rightarrow> list_all number (split CHR ''.'' s))"
proof (induction st s rule: FULL_RELEASE_REGEX_from.induct)
  case (3 c cs)
  then show ?case
    by (auto simp: split_not_Nil not_digit_dot number_def split: list.splits)
next
  case (4 c cs)
  then show ?case
    by (auto simp: split_not_Nil not_digit_dot number_def split: list.splits)
next
  case (5 c cs)
  then show ?case
    by (auto simp: split_not_Nil not_digit_dot number_def split: list.splits)
qed (simp_all add: number_def)

lemma FULL_RELEASE_REGEX_from_newline:
  "CHR 0x0A \<notin> set s \<Longrightarrow>
   FULL_RELEASE_REGEX_from st (s @ [CHR 0x0A]) = FULL_RELEASE_REGEX_from st s"
  by (induction st s rule: FULL_RELEASE_REGEX_from.induct)
     (auto simp: not_digit_newline)

lemma FULL_RELEASE_REGEX_iff:
  "CHR 0x0A \<notin> set s \<Longrightarrow> FULL_RELEASE_REGEX s \<longleftrightarrow> list_all number (split CHR ''.'' s)"
  "CHR 0x0A \<notin> set s \<Longrightarrow> FULL_RELEASE_REGEX (s @ [CHR 0x0A]) \<longleftrightarrow> FULL_RELEASE_REGEX s"
  by (simp_all add: FULL_RELEASE_REGEX_def FULL_RELEASE_REGEX_from_iff
      FULL_RELEASE_REGEX_from_newline)

text \<open>The examples of the specification.\<close>

lemma version_examples:
  "is_release (sample_image ''en_US'' ''7.3.1'' ''.uf2'' dt)"
  "is_full_release (sample_image ''en_US'' ''7.3.1'' ''.uf2'' dt)"
  "\<not> is_alpha (sample_image ''en_US'' ''7.3.1'' ''.uf2'' dt)"
  "\<not> is_rc (sample_image ''en_US'' ''7.3.1'' ''.uf2'' dt)"
  "is_release (sample_image ''en_US'' ''8.0.0-beta.1'' ''.uf2'' dt)"
  "\<not> is_full_release (sample_image ''en_US'' ''8.0.0-beta.1'' ''.uf2'' dt)"
  "is_alpha (sample_image ''en_US'' ''8.0.0-alpha.2'' ''.uf2'' dt)"
  by (simp_all add: is_release_def is_full_release_def is_alpha_def is_rc_def
      RELEASE_REGEX_def FULL_RELEASE_REGEX_def sample_image_def is_digit_def)

lemma FULL_RELEASE_REGEX_from_imp_RELEASE:
  "FULL_RELEASE_REGEX_from st s \<Longrightarrow> st = After_dot \<or> CHR ''.'' \<in> set s
     \<Longrightarrow> RELEASE_REGEX_from st s"
  by (induction st s rule: FULL_RELEASE_REGEX_from.induct)
     (auto simp: not_digit_dot split: if_splits)

lemma RELEASE_REGEX_from_has_dot:
  "RELEASE_REGEX_from st s \<Longrightarrow> st \<noteq> After_dot \<Longrightarrow> CHR ''.'' \<in> set s"
  by (induction st s rule: RELEASE_REGEX_from.induct) (auto split: if_splits)

text \<open>
  C3, as amended. A version that is a full release is a release exactly when it contains
  a dot. (A version of digits only, such as \<^verbatim>\<open>7\<close>, is a full release and not a
  release: the release pattern asks for at least one dot, the full release pattern for
  none.)
\<close>

theorem full_release_is_release_iff_dot:
  "is_full_release img \<Longrightarrow> is_release img \<longleftrightarrow> CHR ''.'' \<in> set (version img)"
proof
  assume "is_release img"
  then show "CHR ''.'' \<in> set (version img)"
    unfolding is_release_def RELEASE_REGEX_def
    by (rule RELEASE_REGEX_from_has_dot) simp
next
  assume "is_full_release img" and "CHR ''.'' \<in> set (version img)"
  then show "is_release img"
    unfolding is_full_release_def is_release_def FULL_RELEASE_REGEX_def RELEASE_REGEX_def
    by (intro FULL_RELEASE_REGEX_from_imp_RELEASE) simp_all
qed

theorem full_release_is_release_iff_dot_witness:
  "is_full_release (sample_image ''en_US'' ''7.3.1'' ''.uf2'' (sample_time 2022 6 1))
   \<and> CHR ''.'' \<in> set (version (sample_image ''en_US'' ''7.3.1'' ''.uf2'' (sample_time 2022 6 1)))
   \<and> is_release (sample_image ''en_US'' ''7.3.1'' ''.uf2'' (sample_time 2022 6 1))"
proof -
  have full: "is_full_release (sample_image ''en_US'' ''7.3.1'' ''.uf2'' (sample_time 2022 6 1))"
    by (simp add: is_full_release_def FULL_RELEASE_REGEX_def sample_image_def is_digit_def)
  have dot: "CHR ''.'' \<in> set (version (sample_image ''en_US'' ''7.3.1'' ''.uf2'' (sample_time 2022 6 1)))"
    by (simp add: sample_image_def)
  from full dot full_release_is_release_iff_dot [OF full] show ?thesis by simp
qed

text \<open>
  C3, as stated, fails: the version \<^verbatim>\<open>7\<close> is a full release and is not a release.
\<close>

theorem full_release_not_release_counterexample:
  "is_full_release (sample_image ''en_US'' ''7'' ''.uf2'' (sample_time 2022 6 1))
   \<and> \<not> is_release (sample_image ''en_US'' ''7'' ''.uf2'' (sample_time 2022 6 1))"
  by (simp add: is_full_release_def FULL_RELEASE_REGEX_def is_release_def RELEASE_REGEX_def
      sample_image_def is_digit_def)

subsection \<open>The file type pattern\<close>

lemma group2_dash: "CHR ''-'' \<in> set s \<Longrightarrow> FILETYPE_REGEX_group2 st s = None"
  by (induction st s rule: FILETYPE_REGEX_group2.induct) (auto simp: not_alnum_special)

lemma group2_slash: "CHR ''/'' \<in> set s \<Longrightarrow> FILETYPE_REGEX_group2 st s = None"
  by (induction st s rule: FILETYPE_REGEX_group2.induct)
     (auto simp: is_alnum_def is_digit_def is_letter_def)

lemma is_type_suffix_no_slash: "is_type_suffix ty \<Longrightarrow> CHR ''/'' \<notin> set ty"
  by (auto simp: is_type_suffix_def group2_slash)

lemma is_type_suffix_dot: "is_type_suffix ty \<Longrightarrow> \<exists>t. ty = CHR ''.'' # t"
  by (cases ty) (auto simp: is_type_suffix_def split: if_splits)

text \<open>
  What the second group accepts, read off the text: cut at the dots, the text before the
  first dot is empty and every piece after a dot is a segment. So a type suffix is one or
  more segments, each with a dot in front.
\<close>

lemma is_letter_alnum: "is_letter c \<Longrightarrow> is_alnum c"
  by (simp add: is_alnum_def)

lemma group2_accepts_iff:
  "FILETYPE_REGEX_group2 st s = Some s \<longleftrightarrow>
     (case st of
        Need_dot \<Rightarrow>
          (case split CHR ''.'' s of
             [] \<Rightarrow> False
           | first # segs \<Rightarrow> first = [] \<and> segs \<noteq> [] \<and> list_all extension_segment segs)
      | Need_letter \<Rightarrow> list_all extension_segment (split CHR ''.'' s)
      | In_segment \<Rightarrow>
          (case split CHR ''.'' s of
             [] \<Rightarrow> False
           | w # segs \<Rightarrow> list_all is_alnum w \<and> list_all extension_segment segs))"
proof (induction st s rule: FILETYPE_REGEX_group2.induct)
  case (3 c cs)
  then show ?case
    by (auto simp: split_not_Nil not_alnum_special extension_segment_def split: list.splits)
next
  case (4 c cs)
  then show ?case
    by (auto simp: split_not_Nil not_alnum_special extension_segment_def is_letter_alnum
        split: list.splits)
next
  case (5 c cs)
  then show ?case
    by (auto simp: split_not_Nil not_alnum_special extension_segment_def is_letter_alnum
        split: list.splits)
qed (simp_all add: extension_segment_def)

lemma is_type_suffix_iff:
  "is_type_suffix ty \<longleftrightarrow>
     (case split CHR ''.'' ty of
        [] \<Rightarrow> False
      | first # segs \<Rightarrow> first = [] \<and> segs \<noteq> [] \<and> list_all extension_segment segs)"
  by (simp add: is_type_suffix_def group2_accepts_iff)

text \<open>
  The text of the second group is all that was left of the subject, but for a newline at
  its end, and it is a type suffix.
\<close>

lemma group2_text:
  "FILETYPE_REGEX_group2 st s = Some r \<Longrightarrow> s = r \<or> s = r @ [CHR 0x0A]"
proof (induction st s arbitrary: r rule: FILETYPE_REGEX_group2.induct)
  case (3 c cs)
  then show ?case by (fastforce split: if_splits)
next
  case (4 c cs)
  then show ?case by (fastforce split: if_splits)
next
  case (5 c cs)
  then show ?case by (fastforce split: if_splits)
qed simp_all

lemma group2_idem:
  "FILETYPE_REGEX_group2 st s = Some r \<Longrightarrow> FILETYPE_REGEX_group2 st r = Some r"
proof (induction st s arbitrary: r rule: FILETYPE_REGEX_group2.induct)
  case (3 c cs)
  then show ?case by (fastforce split: if_splits)
next
  case (4 c cs)
  then show ?case by (fastforce split: if_splits)
next
  case (5 c cs)
  then show ?case by (fastforce split: if_splits)
qed simp_all

lemma group2_newline:
  "FILETYPE_REGEX_group2 st r = Some r \<Longrightarrow> FILETYPE_REGEX_group2 st (r @ [CHR 0x0A]) = Some r"
  by (induction st r rule: FILETYPE_REGEX_group2.induct)
     (auto split: if_splits simp: not_alnum_special)

text \<open>
  The pattern matches a name exactly when the name is a stem without a newline, then a
  type suffix, then at most one newline; the groups of the match are such a stem and type
  suffix.
\<close>

lemma FILETYPE_REGEX_from_sound:
  "FILETYPE_REGEX_from g s = Some (stem, ty)
     \<Longrightarrow> \<exists>pre. stem = g @ pre \<and> CHR 0x0A \<notin> set pre \<and> is_type_suffix ty
             \<and> (s = pre @ ty \<or> s = pre @ ty @ [CHR 0x0A])"
proof (induction s arbitrary: g)
  case Nil
  then show ?case by simp
next
  case (Cons c cs)
  show ?case
  proof (cases "FILETYPE_REGEX_group2 Need_dot (c # cs)")
    case (Some r)
    with Cons.prems have "stem = g" "ty = r" by simp_all
    with group2_text[OF Some] group2_idem[OF Some] show ?thesis
      by (auto simp: is_type_suffix_def)
  next
    case None
    with Cons.prems have c: "c \<noteq> CHR 0x0A"
      and "FILETYPE_REGEX_from (g @ [c]) cs = Some (stem, ty)"
      by (auto split: if_splits)
    from Cons.IH[OF this(2)] obtain pre where
      "stem = (g @ [c]) @ pre" "CHR 0x0A \<notin> set pre" "is_type_suffix ty"
      "cs = pre @ ty \<or> cs = pre @ ty @ [CHR 0x0A]"
      by blast
    with c show ?thesis
      by (intro exI[of _ "c # pre"]) auto
  qed
qed

lemma FILETYPE_REGEX_sound:
  "FILETYPE_REGEX s = Some (stem, ty)
     \<Longrightarrow> CHR 0x0A \<notin> set stem \<and> is_type_suffix ty
         \<and> (s = stem @ ty \<or> s = stem @ ty @ [CHR 0x0A])"
  unfolding FILETYPE_REGEX_def by (drule FILETYPE_REGEX_from_sound) auto

lemma FILETYPE_REGEX_from_complete:
  "CHR 0x0A \<notin> set pre \<Longrightarrow> FILETYPE_REGEX_group2 Need_dot rest \<noteq> None
     \<Longrightarrow> FILETYPE_REGEX_from g (pre @ rest) \<noteq> None"
proof (induction pre arbitrary: g)
  case Nil
  then show ?case by (cases rest) auto
next
  case (Cons c pre)
  then show ?case by (cases "FILETYPE_REGEX_group2 Need_dot (c # pre @ rest)") auto
qed

lemma FILETYPE_REGEX_complete:
  assumes "is_type_suffix ty" and "CHR 0x0A \<notin> set stem"
    and "s = stem @ ty \<or> s = stem @ ty @ [CHR 0x0A]"
  shows "FILETYPE_REGEX s \<noteq> None"
proof -
  from assms(1) have 1: "FILETYPE_REGEX_group2 Need_dot ty \<noteq> None"
    and 2: "FILETYPE_REGEX_group2 Need_dot (ty @ [CHR 0x0A]) \<noteq> None"
    by (simp_all add: is_type_suffix_def group2_newline)
  from assms(3) show ?thesis
  proof
    assume "s = stem @ ty"
    with FILETYPE_REGEX_from_complete[OF assms(2) 1, of "[]"] show ?thesis
      by (simp add: FILETYPE_REGEX_def)
  next
    assume "s = stem @ ty @ [CHR 0x0A]"
    with FILETYPE_REGEX_from_complete[OF assms(2) 2, of "[]"] show ?thesis
      by (simp add: FILETYPE_REGEX_def)
  qed
qed

text \<open>
  The lazy first group runs over a prefix at no position of which the second group
  matches.
\<close>

lemma FILETYPE_REGEX_from_skip:
  "CHR 0x0A \<notin> set pre
   \<Longrightarrow> \<forall>k<length pre. FILETYPE_REGEX_group2 Need_dot (drop k pre @ rest) = None
   \<Longrightarrow> FILETYPE_REGEX_from g (pre @ rest) = FILETYPE_REGEX_from (g @ pre) rest"
proof (induction pre arbitrary: g)
  case Nil
  then show ?case by simp
next
  case (Cons c pre)
  from Cons.prems(2) have here: "FILETYPE_REGEX_group2 Need_dot (c # pre @ rest) = None"
    by force
  from Cons.prems(2)
  have "\<forall>k<length pre. FILETYPE_REGEX_group2 Need_dot (drop k pre @ rest) = None"
    by force
  with Cons
  have "FILETYPE_REGEX_from (g @ [c]) (pre @ rest) = FILETYPE_REGEX_from ((g @ [c]) @ pre) rest"
    by simp
  with here Cons.prems(1) show ?case by auto
qed

text \<open>
  When the second group matches a text that goes on into a type suffix, it matches the
  part before the type suffix on its own.
\<close>

lemma group2_junction:
  "FILETYPE_REGEX_group2 st (s @ CHR ''.'' # ty) = Some r \<Longrightarrow> s \<noteq> []
     \<Longrightarrow> FILETYPE_REGEX_group2 st s = Some s"
proof (induction st s arbitrary: r rule: FILETYPE_REGEX_group2.induct)
  case (3 c cs)
  then show ?case by (cases cs) (auto split: if_splits simp: not_alnum_special)
next
  case (4 c cs)
  then show ?case by (cases cs) (auto split: if_splits simp: not_alnum_special)
next
  case (5 c cs)
  then show ?case by (cases cs) (auto split: if_splits simp: not_alnum_special)
qed simp_all

lemma FILETYPE_REGEX_from_version_type:
  assumes ty: "is_type_suffix ty"
    and v: "\<forall>k<length v. \<not> is_type_suffix (drop k v)"
    and nl: "CHR 0x0A \<notin> set v"
  shows "FILETYPE_REGEX_from g (v @ ty) = Some (g @ v, ty)"
proof -
  from ty obtain t where t: "ty = CHR ''.'' # t" by (auto dest: is_type_suffix_dot)
  have "\<forall>k<length v. FILETYPE_REGEX_group2 Need_dot (drop k v @ ty) = None"
  proof (intro allI impI)
    fix k assume k: "k < length v"
    show "FILETYPE_REGEX_group2 Need_dot (drop k v @ ty) = None"
    proof (rule ccontr)
      assume "FILETYPE_REGEX_group2 Need_dot (drop k v @ ty) \<noteq> None"
      then obtain r where "FILETYPE_REGEX_group2 Need_dot (drop k v @ CHR ''.'' # t) = Some r"
        using t by auto
      with k have "FILETYPE_REGEX_group2 Need_dot (drop k v) = Some (drop k v)"
        by (intro group2_junction) auto
      with v k show False by (simp add: is_type_suffix_def)
    qed
  qed
  with nl have "FILETYPE_REGEX_from g (v @ ty) = FILETYPE_REGEX_from (g @ v) ty"
    by (rule FILETYPE_REGEX_from_skip)
  also from ty t have "\<dots> = Some (g @ v, ty)"
    by (simp add: is_type_suffix_def)
  finally show ?thesis .
qed

lemma FILETYPE_REGEX_from_dash_field:
  assumes "CHR 0x0A \<notin> set a"
  shows "FILETYPE_REGEX_from g (a @ CHR ''-'' # rest) = FILETYPE_REGEX_from (g @ a @ ''-'') rest"
proof -
  have "\<forall>k<length (a @ ''-''). FILETYPE_REGEX_group2 Need_dot (drop k (a @ ''-'') @ rest) = None"
    by (auto intro!: group2_dash)
  moreover from assms have "CHR 0x0A \<notin> set (a @ ''-'')" by simp
  ultimately
  have "FILETYPE_REGEX_from g ((a @ ''-'') @ rest) = FILETYPE_REGEX_from (g @ (a @ ''-'')) rest"
    by (rule FILETYPE_REGEX_from_skip[rotated])
  then show ?thesis by simp
qed

lemma FILETYPE_REGEX_well_formed:
  assumes nl: "CHR 0x0A \<notin> set (p @ d @ b @ l @ v)"
    and ty: "is_type_suffix ty"
    and v: "\<not> ends_in_type_suffix v"
  shows "FILETYPE_REGEX (p @ ''-'' @ d @ ''-'' @ b @ ''-'' @ l @ ''-'' @ v @ ty)
           = Some (p @ ''-'' @ d @ ''-'' @ b @ ''-'' @ l @ ''-'' @ v, ty)"
proof -
  from v have v': "\<forall>k<length v. \<not> is_type_suffix (drop k v)"
    by (auto simp: ends_in_type_suffix_def list_ex_iff)
  from nl have "CHR 0x0A \<notin> set p" "CHR 0x0A \<notin> set d" "CHR 0x0A \<notin> set b"
    "CHR 0x0A \<notin> set l" "CHR 0x0A \<notin> set v" by auto
  then show ?thesis
    by (simp add: FILETYPE_REGEX_def FILETYPE_REGEX_from_dash_field
        FILETYPE_REGEX_from_version_type[OF ty v'])
qed

subsection \<open>\<^verbatim>\<open>from_url\<close>\<close>

lemma unpack_five:
  "length xs = 5 \<Longrightarrow>
   (case xs of [a, b, c, d, e] \<Rightarrow> f c d e | _ \<Rightarrow> g) = f (xs ! 2) (xs ! 3) (last xs)"
  by (auto split: list.splits)

lemma unpack_not_five:
  "length xs \<noteq> 5 \<Longrightarrow> (case xs of [a, b, c, d, e] \<Rightarrow> f c d e | _ \<Rightarrow> g) = g"
  by (auto split: list.splits)

lemma from_url_unfold:
  "urlparse u = Inr path \<Longrightarrow> FILETYPE_REGEX (last (split CHR ''/'' path)) = Some (stem, ty)
   \<Longrightarrow> from_url urlparse u sz md =
     (case split_max CHR ''-'' 4 stem of
        [_, _, b, l, v] \<Rightarrow>
          Inr \<lparr>name = last (split CHR ''/'' path), url = u, size' = sz, mdate = md,
               board = b, language = l, version = v, type = ty\<rparr>
      | _ \<Rightarrow> Inl ValueError)"
  by (simp add: from_url_def)

text \<open>
  C8. When the library finds a path in the URL, the file type pattern matches the last
  segment of the path, and the stem it finds has at least four dashes, \<open>from_url\<close>
  returns a record; its version is all of the stem after the fourth dash, further dashes
  included. A stem of more than five fields is not an error.
\<close>

theorem from_url_version_keeps_dashes:
  assumes "urlparse u = Inr path"
    and "FILETYPE_REGEX (last (split CHR ''/'' path)) = Some (stem, ty)"
    and "4 \<le> count_list stem CHR ''-''"
  shows "\<exists>img. from_url urlparse u sz md = Inr img
           \<and> name img = last (split CHR ''/'' path) \<and> type img = ty
           \<and> version img = after_sep CHR ''-'' 4 stem"
proof -
  from assms(3) have "length (split_max CHR ''-'' 4 stem) = 5"
    by (simp add: length_split_max)
  moreover from assms(3) have "last (split_max CHR ''-'' 4 stem) = after_sep CHR ''-'' 4 stem"
    by (rule last_split_max)
  ultimately show ?thesis
    using from_url_unfold[of urlparse u path stem ty sz md] assms(1,2)
    by (simp add: unpack_five)
qed

theorem from_url_version_keeps_dashes_witness:
  "4 \<le> count_list ''adafruit-circuitpython-pyportal-en_US-8.0.0-beta.1'' CHR ''-''
   \<and> length (split CHR ''-'' ''adafruit-circuitpython-pyportal-en_US-8.0.0-beta.1'') = 6
   \<and> (\<exists>img. from_url urlparse_path
         ''https://adafruit-circuit-python.s3.amazonaws.com/bin/pyportal/en_US/adafruit-circuitpython-pyportal-en_US-8.0.0-beta.1.uf2''
         None None = Inr img
       \<and> version img = ''8.0.0-beta.1'')"
proof -
  let ?u = "''https://adafruit-circuit-python.s3.amazonaws.com/bin/pyportal/en_US/adafruit-circuitpython-pyportal-en_US-8.0.0-beta.1.uf2''"
  let ?path = "''/bin/pyportal/en_US/adafruit-circuitpython-pyportal-en_US-8.0.0-beta.1.uf2''"
  let ?stem = "''adafruit-circuitpython-pyportal-en_US-8.0.0-beta.1''"
  have p: "urlparse_path ?u = Inr ?path"
    by code_simp
  have r: "FILETYPE_REGEX (last (split CHR ''/'' ?path)) = Some (?stem, ''.uf2'')"
    by code_simp
  have c: "4 \<le> count_list ?stem CHR ''-''"
    by code_simp
  have n: "length (split CHR ''-'' ?stem) = 6"
    by code_simp
  have a: "after_sep CHR ''-'' 4 ?stem = ''8.0.0-beta.1''"
    by code_simp
  from from_url_version_keeps_dashes[of urlparse_path ?u ?path ?stem "''.uf2''" None None, OF p r c]
  obtain img where "from_url urlparse_path ?u None None = Inr img"
    and "version img = after_sep CHR ''-'' 4 ?stem"
    by blast
  with a have "\<exists>img. from_url urlparse_path ?u None None = Inr img \<and> version img = ''8.0.0-beta.1''"
    by simp
  with c n show ?thesis by blast
qed

text \<open>
  C4, as amended. When the file type pattern does not match the last segment of the path,
  or the stem it finds has fewer than four dashes (fewer than five fields), \<open>from_url\<close>
  raises and returns no record: \<^verbatim>\<open>AttributeError\<close> in the first case, \<^verbatim>\<open>ValueError\<close> in
  the second.
\<close>

theorem from_url_malformed:
  assumes "urlparse u = Inr path"
    and "(case FILETYPE_REGEX (last (split CHR ''/'' path)) of
            None \<Rightarrow> True
          | Some (stem, ty) \<Rightarrow> count_list stem CHR ''-'' < 4)"
  shows "from_url urlparse u sz md =
           Inl (case FILETYPE_REGEX (last (split CHR ''/'' path)) of
                  None \<Rightarrow> AttributeError
                | Some _ \<Rightarrow> ValueError)"
proof (cases "FILETYPE_REGEX (last (split CHR ''/'' path))")
  case None
  with assms(1) show ?thesis by (simp add: from_url_def)
next
  case (Some m)
  obtain stem ty where m: "m = (stem, ty)" by (cases m)
  with Some assms(2) have "length (split_max CHR ''-'' 4 stem) \<noteq> 5"
    by (simp add: length_split_max)
  with Some m show ?thesis
    using from_url_unfold[of urlparse u path stem ty sz md] assms(1)
    by (simp add: unpack_not_five)
qed

text \<open>The key \<^verbatim>\<open>bin/x/y/not-a-valid-name\<close> has no type suffix: parsing it raises.\<close>

theorem from_url_malformed_witness:
  "from_url urlparse_path ''bin/x/y/not-a-valid-name'' None None = Inl AttributeError"
proof -
  have p: "urlparse_path ''bin/x/y/not-a-valid-name'' = Inr ''bin/x/y/not-a-valid-name''"
    by code_simp
  have r: "FILETYPE_REGEX (last (split CHR ''/'' ''bin/x/y/not-a-valid-name'')) = None"
    by code_simp
  from from_url_malformed[of urlparse_path "''bin/x/y/not-a-valid-name''"
      "''bin/x/y/not-a-valid-name''" None None] p r
  show ?thesis by simp
qed

text \<open>
  C4, as stated, fails: a name whose stem has six fields separated by dashes is not of the
  five-field shape, and \<open>from_url\<close> returns a record for it.
\<close>

theorem from_url_six_fields_counterexample:
  "\<not> five_field_shape ''adafruit-circuitpython-pyportal-en_US-8.0.0-beta.1.uf2''
   \<and> from_url urlparse_path
       ''https://adafruit-circuit-python.s3.amazonaws.com/bin/pyportal/en_US/adafruit-circuitpython-pyportal-en_US-8.0.0-beta.1.uf2''
       None None
     = Inr \<lparr>name = ''adafruit-circuitpython-pyportal-en_US-8.0.0-beta.1.uf2'',
            url = ''https://adafruit-circuit-python.s3.amazonaws.com/bin/pyportal/en_US/adafruit-circuitpython-pyportal-en_US-8.0.0-beta.1.uf2'',
            size' = None, mdate = None, board = ''pyportal'', language = ''en_US'',
            version = ''8.0.0-beta.1'', type = ''.uf2''\<rparr>"
proof
  show "\<not> five_field_shape ''adafruit-circuitpython-pyportal-en_US-8.0.0-beta.1.uf2''"
    by code_simp
next
  show "from_url urlparse_path
       ''https://adafruit-circuit-python.s3.amazonaws.com/bin/pyportal/en_US/adafruit-circuitpython-pyportal-en_US-8.0.0-beta.1.uf2''
       None None
     = Inr \<lparr>name = ''adafruit-circuitpython-pyportal-en_US-8.0.0-beta.1.uf2'',
            url = ''https://adafruit-circuit-python.s3.amazonaws.com/bin/pyportal/en_US/adafruit-circuitpython-pyportal-en_US-8.0.0-beta.1.uf2'',
            size' = None, mdate = None, board = ''pyportal'', language = ''en_US'',
            version = ''8.0.0-beta.1'', type = ''.uf2''\<rparr>"
    by code_simp
qed

text \<open>
  C5, as amended. Take a URL and a key
  \<^verbatim>\<open>bin/<board>/<language>/<p>-<d>-<board>-<language>-<version><type>\<close> such that the path
  the URL library returns for the URL ends in the whole key (the library cuts a URL at
  \<^verbatim>\<open>?\<close>, \<^verbatim>\<open>#\<close> and \<^verbatim>\<open>;\<close>, so this asks that the key holds nothing the library cuts off
  or removes), no field holds a slash or a newline, \<^verbatim>\<open>p\<close>, \<^verbatim>\<open>d\<close>, the board and the
  language hold no dash, the type is a type suffix and the version does not itself end in
  a type suffix. Then \<open>from_url\<close> returns a record whose board, language, version and
  type are the ones the key was built from.
\<close>

theorem from_url_round_trip:
  assumes path: "urlparse u = Inr (pre @ ''bin/'' @ b @ ''/'' @ l @ ''/''
                     @ p @ ''-'' @ d @ ''-'' @ b @ ''-'' @ l @ ''-'' @ v @ ty)"
    and slash: "CHR ''/'' \<notin> set (p @ d @ b @ l @ v)"
    and nl: "CHR 0x0A \<notin> set (p @ d @ b @ l @ v)"
    and dash: "CHR ''-'' \<notin> set (p @ d @ b @ l)"
    and ty: "is_type_suffix ty"
    and v: "\<not> ends_in_type_suffix v"
  shows "\<exists>img. from_url urlparse u sz md = Inr img
           \<and> board img = b \<and> language img = l \<and> version img = v \<and> type img = ty"
proof -
  let ?stem = "p @ ''-'' @ d @ ''-'' @ b @ ''-'' @ l @ ''-'' @ v"
  let ?path = "pre @ ''bin/'' @ b @ ''/'' @ l @ ''/'' @ ?stem @ ty"
  from slash ty have "CHR ''/'' \<notin> set (?stem @ ty)"
    by (auto dest: is_type_suffix_no_slash)
  then have "last (split CHR ''/'' ((pre @ ''bin/'' @ b @ ''/'' @ l) @ CHR ''/'' # (?stem @ ty)))
      = ?stem @ ty"
    by (rule last_split_dir)
  then have base: "last (split CHR ''/'' ?path) = ?stem @ ty" by simp
  have rx: "FILETYPE_REGEX (last (split CHR ''/'' ?path)) = Some (?stem, ty)"
    unfolding base using FILETYPE_REGEX_well_formed[OF nl ty v] by simp
  from dash have fields: "split_max CHR ''-'' 4 ?stem = [p, d, b, l, v]"
    by (simp add: eval_nat_numeral split_max_field)
  from path have path': "urlparse u = Inr ?path" by simp
  show ?thesis
    using from_url_unfold[of urlparse u ?path ?stem ty sz md] path' rx fields
    by simp
qed

theorem from_url_round_trip_witness:
  "is_type_suffix ''.uf2'' \<and> \<not> ends_in_type_suffix ''8.0.0-beta.1''
   \<and> (\<exists>img. from_url urlparse_path
         ''https://adafruit-circuit-python.s3.amazonaws.com/bin/pyportal/en_US/adafruit-circuitpython-pyportal-en_US-8.0.0-beta.1.uf2''
         (Some 4096) (Some (sample_time 2022 9 1)) = Inr img
       \<and> board img = ''pyportal'' \<and> language img = ''en_US''
       \<and> version img = ''8.0.0-beta.1'' \<and> type img = ''.uf2'')"
proof -
  let ?u = "''https://adafruit-circuit-python.s3.amazonaws.com/bin/pyportal/en_US/adafruit-circuitpython-pyportal-en_US-8.0.0-beta.1.uf2''"
  have path: "urlparse_path ?u = Inr (''/'' @ ''bin/'' @ ''pyportal'' @ ''/'' @ ''en_US'' @ ''/''
      @ ''adafruit'' @ ''-'' @ ''circuitpython'' @ ''-'' @ ''pyportal'' @ ''-'' @ ''en_US''
      @ ''-'' @ ''8.0.0-beta.1'' @ ''.uf2'')"
    by code_simp
  have slash: "CHR ''/'' \<notin> set (''adafruit'' @ ''circuitpython'' @ ''pyportal'' @ ''en_US''
      @ ''8.0.0-beta.1'')"
    by simp
  have nl: "CHR 0x0A \<notin> set (''adafruit'' @ ''circuitpython'' @ ''pyportal'' @ ''en_US''
      @ ''8.0.0-beta.1'')"
    by simp
  have dash: "CHR ''-'' \<notin> set (''adafruit'' @ ''circuitpython'' @ ''pyportal'' @ ''en_US'')"
    by simp
  have ty: "is_type_suffix ''.uf2''"
    by code_simp
  have v: "\<not> ends_in_type_suffix ''8.0.0-beta.1''"
    by code_simp
  from from_url_round_trip[of urlparse_path ?u "''/''" "''pyportal''" "''en_US''" "''adafruit''"
      "''circuitpython''" "''8.0.0-beta.1''" "''.uf2''" "Some 4096" "Some (sample_time 2022 9 1)",
      OF path slash nl dash ty v] ty v
  show ?thesis by blast
qed

text \<open>
  C5, as stated, fails on keys of the shape: a version that ends in a type suffix loses
  it to the type, a board with a dash in it shifts the fields, a key with a question
  mark in it is cut there by the URL library, so that no type suffix is left and the
  parse raises, and a version with a slash in it leaves only its last part in the name,
  with too few fields.
\<close>

theorem from_url_round_trip_counterexample:
  "from_url urlparse_path
     (''bin/'' @ ''pyportal'' @ ''/'' @ ''en_US'' @ ''/'' @ ''adafruit'' @ ''-''
        @ ''circuitpython'' @ ''-'' @ ''pyportal'' @ ''-'' @ ''en_US'' @ ''-'' @ ''1.0.b1'' @ ''.uf2'')
     None None
   = Inr \<lparr>name = ''adafruit-circuitpython-pyportal-en_US-1.0.b1.uf2'',
          url = ''bin/pyportal/en_US/adafruit-circuitpython-pyportal-en_US-1.0.b1.uf2'',
          size' = None, mdate = None, board = ''pyportal'', language = ''en_US'',
          version = ''1.0'', type = ''.b1.uf2''\<rparr>
   \<and> from_url urlparse_path
     (''bin/'' @ ''my-board'' @ ''/'' @ ''en_US'' @ ''/'' @ ''adafruit'' @ ''-''
        @ ''circuitpython'' @ ''-'' @ ''my-board'' @ ''-'' @ ''en_US'' @ ''-'' @ ''7.3.1'' @ ''.uf2'')
     None None
   = Inr \<lparr>name = ''adafruit-circuitpython-my-board-en_US-7.3.1.uf2'',
          url = ''bin/my-board/en_US/adafruit-circuitpython-my-board-en_US-7.3.1.uf2'',
          size' = None, mdate = None, board = ''my'', language = ''board'',
          version = ''en_US-7.3.1'', type = ''.uf2''\<rparr>
   \<and> from_url urlparse_path
     (''bin/'' @ ''pyportal'' @ ''/'' @ ''en_US'' @ ''/'' @ ''adafruit'' @ ''-''
        @ ''circuitpython'' @ ''-'' @ ''pyportal'' @ ''-'' @ ''en_US'' @ ''-'' @ ''1.0?x'' @ ''.uf2'')
     None None
   = Inl AttributeError
   \<and> from_url urlparse_path
     (''bin/'' @ ''pyportal'' @ ''/'' @ ''en_US'' @ ''/'' @ ''adafruit'' @ ''-''
        @ ''circuitpython'' @ ''-'' @ ''pyportal'' @ ''-'' @ ''en_US'' @ ''-'' @ ''1/0'' @ ''.uf2'')
     None None
   = Inl ValueError"
  by code_simp

subsection \<open>Sorting\<close>

text \<open>
  A stable sort by \<open>g\<close> of a list that is sorted by \<open>h\<close> is sorted by the pair
  \<open>(g, h)\<close>.
\<close>

lemma insort_key_lex:
  fixes g :: "'a \<Rightarrow> 'k::linorder" and h :: "'a \<Rightarrow> 'j::linorder"
  shows "sorted (map (\<lambda>y. (g y, h y)) ys) \<Longrightarrow> \<forall>y\<in>set ys. h x \<le> h y
    \<Longrightarrow> sorted (map (\<lambda>y. (g y, h y)) (insort_key g x ys))"
  by (induction ys) (auto simp: set_insort_key)

lemma sort_key_lex:
  fixes g :: "'a \<Rightarrow> 'k::linorder" and h :: "'a \<Rightarrow> 'j::linorder"
  shows "sorted (map h xs) \<Longrightarrow> sorted (map (\<lambda>y. (g y, h y)) (sort_key g xs))"
  by (induction xs) (auto intro!: insort_key_lex)

lemma filter_sort_key_const:
  assumes "\<And>x. P x \<Longrightarrow> f x = c"
  shows "filter P (sort_key f xs) = filter P xs"
proof -
  have "filter P (sort_key f xs) = filter P (filter (\<lambda>y. f y = c) (sort_key f xs))"
    using assms by (auto intro!: filter_cong)
  also have "\<dots> = filter P (filter (\<lambda>y. f y = c) xs)"
    by (simp only: sort_key_stable)
  also have "\<dots> = filter P xs"
    using assms by (auto intro!: filter_cong)
  finally show ?thesis .
qed

lemma three_sorts:
  fixes D :: "'a \<Rightarrow> 'd::linorder" and T :: "'a \<Rightarrow> 't::linorder" and V :: "'a \<Rightarrow> 'v::linorder"
  shows "sort_key D (sort_key T (sort_key (\<lambda>r. (D r, V r)) zs))
           = sort_key (\<lambda>r. (D r, T r, V r)) zs"
proof (rule properties_for_sort_key[symmetric])
  show "mset (sort_key D (sort_key T (sort_key (\<lambda>r. (D r, V r)) zs))) = mset zs"
    by simp
next
  fix k
  let ?P = "\<lambda>x. (D k, T k, V k) = (D x, T x, V x)"
  have "filter ?P (sort_key D (sort_key T (sort_key (\<lambda>r. (D r, V r)) zs)))
      = filter ?P (sort_key T (sort_key (\<lambda>r. (D r, V r)) zs))"
    by (rule filter_sort_key_const[where c = "D k"]) simp
  also have "\<dots> = filter ?P (sort_key (\<lambda>r. (D r, V r)) zs)"
    by (rule filter_sort_key_const[where c = "T k"]) simp
  also have "\<dots> = filter ?P zs"
    by (rule filter_sort_key_const[where c = "(D k, V k)"]) simp
  finally show "filter ?P (sort_key D (sort_key T (sort_key (\<lambda>r. (D r, V r)) zs)))
      = filter ?P zs" .
next
  have "sorted (map (\<lambda>r. (D r, V r)) (sort_key (\<lambda>r. (D r, V r)) zs))"
    by simp
  then have "sorted (map (\<lambda>r. (T r, (D r, V r))) (sort_key T (sort_key (\<lambda>r. (D r, V r)) zs)))"
    by (rule sort_key_lex)
  then have "sorted (map (\<lambda>r. (D r, (T r, (D r, V r))))
      (sort_key D (sort_key T (sort_key (\<lambda>r. (D r, V r)) zs))))"
    by (rule sort_key_lex)
  then show "sorted (map (\<lambda>r. (D r, T r, V r))
      (sort_key D (sort_key T (sort_key (\<lambda>r. (D r, V r)) zs))))"
    unfolding sorted_map by (rule sorted_wrt_mono_rel[rotated]) auto
qed

text \<open>\<^verbatim>\<open>sorted\<close> with a key that raises on no element, and with one that raises.\<close>

lemma decorate_total:
  "\<forall>x\<in>set xs. key x = Inr (k x) \<Longrightarrow> decorate key xs = Inr (map (\<lambda>x. (k x, x)) xs)"
  by (induction xs) auto

lemma decorate_raises:
  assumes "x \<in> set xs" and "key x = Inl e"
    and only: "\<And>y e'. key y = Inl e' \<Longrightarrow> e' = e"
  shows "decorate key xs = Inl e"
  using assms(1)
proof (induction xs)
  case Nil
  then show ?case by simp
next
  case (Cons a xs)
  show ?case
  proof (cases "key a")
    case (Inl e')
    with only[of a e'] show ?thesis by simp
  next
    case (Inr k)
    with Cons.prems assms(2) have "x \<in> set xs" by auto
    then have "decorate key xs = Inl e" by (rule Cons.IH)
    with Inr show ?thesis by simp
  qed
qed

lemma insort_key_decorated:
  "insort_key fst (k x, x) (map (\<lambda>x. (k x, x)) ys) = map (\<lambda>x. (k x, x)) (insort_key k x ys)"
  by (induction ys) auto

lemma sort_key_decorated:
  "sort_key fst (map (\<lambda>x. (k x, x)) ys) = map (\<lambda>x. (k x, x)) (sort_key k ys)"
  by (induction ys) (auto simp: insort_key_decorated)

lemma sorted_reverse_total:
  assumes "\<forall>x\<in>set xs. key x = Inr (k x)"
  shows "sorted_reverse key xs = Inr (rev (sort_key k (rev xs)))"
proof -
  have "map snd (rev (sort_key fst (rev (map (\<lambda>x. (k x, x)) xs)))) = rev (sort_key k (rev xs))"
    by (simp add: rev_map sort_key_decorated comp_def)
  with decorate_total[OF assms] show ?thesis
    by (simp add: sorted_reverse_def)
qed

lemma sorted_reverse_raises:
  assumes "x \<in> set xs" and "key x = Inl e"
    and only: "\<And>y e'. key y = Inl e' \<Longrightarrow> e' = e"
  shows "sorted_reverse key xs = Inl e"
proof -
  from assms have "decorate key xs = Inl e" by (rule decorate_raises)
  then show ?thesis by (simp add: sorted_reverse_def)
qed

lemma sort_results_total:
  assumes "\<forall>r\<in>set rs. mdate r \<noteq> None"
  shows "sort_results rs =
           Inr (rev (sort_key (\<lambda>r. date (the (mdate r)))
                  (sort_key type
                     (sort_key (\<lambda>r. (date (the (mdate r)), version r)) (rev rs)))))"
proof -
  let ?D = "\<lambda>r. date (the (mdate r))"
  let ?r1 = "rev (sort_key (\<lambda>r. (?D r, version r)) (rev rs))"
  let ?r2 = "rev (sort_key type (rev ?r1))"
  from assms have "\<forall>r\<in>set rs. key_date_version r = Inr (?D r, version r)"
    by (auto simp: key_date_version_def)
  then have 1: "sorted_reverse key_date_version rs = Inr ?r1"
    by (rule sorted_reverse_total)
  have 2: "sorted_reverse key_type ?r1 = Inr ?r2"
    by (rule sorted_reverse_total) (simp add: key_type_def)
  from assms have "\<forall>r\<in>set ?r2. key_date r = Inr (?D r)"
    by (auto simp: key_date_def)
  then have 3: "sorted_reverse key_date ?r2 = Inr (rev (sort_key ?D (rev ?r2)))"
    by (rule sorted_reverse_total)
  from 1 2 3 show ?thesis
    by (simp add: sort_results_def)
qed

lemma sort_results_raises:
  assumes "r \<in> set rs" and "mdate r = None"
  shows "sort_results rs = Inl AttributeError"
proof -
  have "sorted_reverse key_date_version rs = Inl AttributeError"
  proof (rule sorted_reverse_raises[of r])
    show "r \<in> set rs" by (rule assms(1))
    show "key_date_version r = Inl AttributeError"
      using assms(2) by (simp add: key_date_version_def)
    show "\<And>y e'. key_date_version y = Inl e' \<Longrightarrow> e' = AttributeError"
      by (auto simp: key_date_version_def split: option.splits)
  qed
  then show ?thesis by (simp add: sort_results_def)
qed

text \<open>
  C1. The three sorts of \<^verbatim>\<open>main\<close>, each descending and stable, give the list that one
  descending stable sort by the triple of date, type and version gives; both raise
  \<^verbatim>\<open>AttributeError\<close> when a record has no modification time.
\<close>

theorem sort_results_single_sort:
  "sort_results rs = sorted_reverse key_date_type_version rs"
proof (cases "\<forall>r\<in>set rs. mdate r \<noteq> None")
  case True
  let ?D = "\<lambda>r. date (the (mdate r))"
  from True have "\<forall>r\<in>set rs. key_date_type_version r = Inr (?D r, type r, version r)"
    by (auto simp: key_date_type_version_def)
  then have "sorted_reverse key_date_type_version rs
      = Inr (rev (sort_key (\<lambda>r. (?D r, type r, version r)) (rev rs)))"
    by (rule sorted_reverse_total)
  with True show ?thesis
    by (simp add: sort_results_total three_sorts)
next
  case False
  then obtain r where r: "r \<in> set rs" "mdate r = None" by auto
  have "sorted_reverse key_date_type_version rs = Inl AttributeError"
  proof (rule sorted_reverse_raises[of r])
    show "r \<in> set rs" by (rule r(1))
    show "key_date_type_version r = Inl AttributeError"
      using r(2) by (simp add: key_date_type_version_def)
    show "\<And>y e'. key_date_type_version y = Inl e' \<Longrightarrow> e' = AttributeError"
      by (auto simp: key_date_type_version_def split: option.splits)
  qed
  with r show ?thesis by (simp add: sort_results_raises)
qed

text \<open>The sample bucket, listed, parsed and sorted.\<close>

lemma sample_list_images:
  "list_images urljoin_key urlparse_path sample_cp ''pyportal'' ''en_US'' = Inr sample_images"
  by code_simp

lemma sample_sort_results: "sort_results sample_images = Inr sample_results"
  by code_simp

theorem sort_results_single_sort_witness:
  "sort_results sample_images = Inr sample_results
   \<and> map name sample_results =
       [''adafruit-circuitpython-pyportal-en_US-8.0.0-beta.1.uf2'',
        ''adafruit-circuitpython-pyportal-en_US-20220901-abc123.uf2'',
        ''adafruit-circuitpython-pyportal-en_US-8.0.0-beta.1.bin'',
        ''adafruit-circuitpython-pyportal-en_US-7.3.1.uf2'']"
proof -
  have "sorted_reverse key_date_type_version sample_images = Inr sample_results"
    by code_simp
  with sort_results_single_sort[of sample_images]
  have "sort_results sample_images = Inr sample_results" by simp
  moreover have "map name sample_results =
       [''adafruit-circuitpython-pyportal-en_US-8.0.0-beta.1.uf2'',
        ''adafruit-circuitpython-pyportal-en_US-20220901-abc123.uf2'',
        ''adafruit-circuitpython-pyportal-en_US-8.0.0-beta.1.bin'',
        ''adafruit-circuitpython-pyportal-en_US-7.3.1.uf2'']"
    by code_simp
  ultimately show ?thesis by blast
qed

subsection \<open>Filtering and selection\<close>

lemma spec_keeps_iff:
  "spec_keeps opts img \<longleftrightarrow> type_ok opts img \<and> version_ok opts img \<and> release_ok opts img"
  by (auto simp: spec_keeps_def type_ok_def version_ok_def release_ok_def endswith_iff_suffix
      split: option.splits)

lemma filtered_spec_keeps: "filtered opts results = filter (spec_keeps opts) results"
  by (induction results) (auto simp: spec_keeps_iff)

text \<open>
  C2. The comprehension keeps exactly the records that the three conditions of the
  selection algorithm admit (the type ends with the wanted suffix, the version is the
  wanted one, and one of prerelease, full release, latest, release holds), in their order;
  the result of the selection is the first record kept, or the outcome that no image was
  found.
\<close>

theorem filtered_keeps:
  "filtered opts results = filter (spec_keeps opts) results
   \<and> selected (filtered opts results)
       = (case filter (spec_keeps opts) results of
            [] \<Rightarrow> No_images_found
          | img # _ \<Rightarrow> Download img)
   \<and> select opts images =
         (case sort_results images of
            Inl e \<Rightarrow> Inl e
          | Inr results \<Rightarrow>
              Inr (case filter (spec_keeps opts) results of
                     [] \<Rightarrow> No_images_found
                   | img # _ \<Rightarrow> Download img))"
proof (intro conjI)
  show kept: "filtered opts results = filter (spec_keeps opts) results"
    by (rule filtered_spec_keeps)
  show "selected (filtered opts results)
       = (case filter (spec_keeps opts) results of
            [] \<Rightarrow> No_images_found
          | img # _ \<Rightarrow> Download img)"
    unfolding kept by (simp add: selected_def)
  show "select opts images =
         (case sort_results images of
            Inl e \<Rightarrow> Inl e
          | Inr results \<Rightarrow>
              Inr (case filter (spec_keeps opts) results of
                     [] \<Rightarrow> No_images_found
                   | img # _ \<Rightarrow> Download img))"
  proof (cases "sort_results images")
    case (Inl e)
    then show ?thesis by (simp add: select_def)
  next
    case (Inr sorted_images)
    then show ?thesis by (simp add: select_def selected_def filtered_spec_keeps)
  qed
qed

theorem filtered_keeps_witness:
  "filtered (sample_options ''en_US'' None (Some ''.uf2'') False False) sample_results
     = [sample_image ''en_US'' ''8.0.0-beta.1'' ''.uf2'' (sample_time 2022 9 1),
        sample_image ''en_US'' ''7.3.1'' ''.uf2'' (sample_time 2022 6 1)]
   \<and> select (sample_options ''en_US'' None (Some ''.uf2'') False False) sample_images
     = Inr (Download (sample_image ''en_US'' ''8.0.0-beta.1'' ''.uf2'' (sample_time 2022 9 1)))"
proof -
  let ?opts = "sample_options ''en_US'' None (Some ''.uf2'') False False"
  have kept: "filter (spec_keeps ?opts) sample_results
     = [sample_image ''en_US'' ''8.0.0-beta.1'' ''.uf2'' (sample_time 2022 9 1),
        sample_image ''en_US'' ''7.3.1'' ''.uf2'' (sample_time 2022 6 1)]"
    by code_simp
  from filtered_keeps[of ?opts sample_results sample_images] kept sample_sort_results
  show ?thesis by simp
qed

lemma spec_keeps_swap:
  "spec_keeps (opts\<lparr>opt_prerelease := opt_latest opts, opt_latest := opt_prerelease opts\<rparr>) img
     = spec_keeps opts img"
  by (auto simp: spec_keeps_def)

lemma filtered_swap:
  "filtered (opts\<lparr>opt_prerelease := opt_latest opts, opt_latest := opt_prerelease opts\<rparr>) results
     = filtered opts results"
  unfolding filtered_spec_keeps by (rule filter_cong) (simp_all add: spec_keeps_swap)

text \<open>
  C9. Exchanging the values of the prerelease flag and the latest flag does not change
  what the selection returns, and with either flag set every record passes the release
  condition of the filter.
\<close>

theorem select_flags_interchangeable:
  "select (opts\<lparr>opt_prerelease := opt_latest opts, opt_latest := opt_prerelease opts\<rparr>) images
     = select opts images
   \<and> (opt_prerelease opts \<or> opt_latest opts \<longrightarrow> release_ok opts img)"
proof
  show "select (opts\<lparr>opt_prerelease := opt_latest opts, opt_latest := opt_prerelease opts\<rparr>) images
     = select opts images"
    unfolding select_def filtered_swap ..
  show "opt_prerelease opts \<or> opt_latest opts \<longrightarrow> release_ok opts img"
    by (auto simp: release_ok_def)
qed

theorem select_flags_interchangeable_witness:
  "select (sample_options ''en_US'' None None False True) sample_images
     = select (sample_options ''en_US'' None None True False) sample_images
   \<and> release_ok (sample_options ''en_US'' None None True False)
        (sample_image ''en_US'' ''20220901-abc123'' ''.uf2'' (sample_time 2022 9 1))
   \<and> \<not> is_release (sample_image ''en_US'' ''20220901-abc123'' ''.uf2'' (sample_time 2022 9 1))
   \<and> \<not> is_full_release (sample_image ''en_US'' ''20220901-abc123'' ''.uf2'' (sample_time 2022 9 1))"
proof -
  let ?opts = "sample_options ''en_US'' None None True False"
  let ?img = "sample_image ''en_US'' ''20220901-abc123'' ''.uf2'' (sample_time 2022 9 1)"
  have swap: "?opts\<lparr>opt_prerelease := opt_latest ?opts, opt_latest := opt_prerelease ?opts\<rparr>
      = sample_options ''en_US'' None None False True"
    by (simp add: sample_options_def)
  have flag: "opt_prerelease ?opts \<or> opt_latest ?opts"
    by (simp add: sample_options_def)
  have no: "\<not> is_release ?img" "\<not> is_full_release ?img"
    by code_simp+
  from select_flags_interchangeable[of ?opts sample_images ?img] swap flag no
  show ?thesis by simp
qed

subsection \<open>\<^verbatim>\<open>list_versions\<close>\<close>

lemma yield_versions_eq: "yield_versions search images = spec_versions search images"
  by (induction images) (auto simp: spec_versions_def contains_iff_sublist split: option.splits)

text \<open>
  C7. \<^verbatim>\<open>list_versions\<close> yields the versions of the images that \<^verbatim>\<open>list_images\<close>
  returns for the board and the language, those that are releases and, when a search
  string is given, hold it as a substring, in the order of \<^verbatim>\<open>list_images\<close>; when
  \<^verbatim>\<open>list_images\<close> raises, it yields nothing and raises the same.
\<close>

theorem list_versions_spec:
  "list_versions urljoin urlparse cp b l search =
     (case list_images urljoin urlparse cp b l of
        Inl e \<Rightarrow> ([], Some e)
      | Inr images \<Rightarrow> (spec_versions search images, None))"
proof (cases "list_images urljoin urlparse cp b l")
  case (Inl e)
  then show ?thesis by (simp add: list_versions_def)
next
  case (Inr images)
  then show ?thesis by (simp add: list_versions_def yield_versions_eq)
qed

theorem list_versions_spec_witness:
  "list_versions urljoin_key urlparse_path sample_cp ''pyportal'' ''en_US'' (Some ''beta'')
     = ([''8.0.0-beta.1'', ''8.0.0-beta.1''], None)
   \<and> list_versions urljoin_key urlparse_path sample_cp ''pyportal'' ''en_US'' None
     = ([''7.3.1'', ''8.0.0-beta.1'', ''8.0.0-beta.1''], None)"
proof -
  have "spec_versions (Some ''beta'') sample_images = [''8.0.0-beta.1'', ''8.0.0-beta.1'']"
    by code_simp
  moreover have "spec_versions None sample_images = [''7.3.1'', ''8.0.0-beta.1'', ''8.0.0-beta.1'']"
    by code_simp
  ultimately show ?thesis
    using list_versions_spec[of urljoin_key urlparse_path sample_cp "''pyportal''" "''en_US''"]
      sample_list_images
    by simp
qed

subsection \<open>The \<^verbatim>\<open>get\<close> command\<close>

lemma from_url_mdate: "from_url urlparse u sz md = Inr img \<Longrightarrow> mdate img = md"
  by (auto simp: from_url_def Let_def split: sum.splits option.splits list.splits)

lemma from_urls_mdate:
  "from_urls urlparse cs = Inr images \<Longrightarrow> \<forall>img\<in>set images. mdate img \<noteq> None"
proof (induction cs arbitrary: images)
  case Nil
  then show ?case by simp
next
  case (Cons c cs)
  obtain key sz dt where c: "c = (key, sz, dt)" by (cases c)
  from Cons.prems c obtain img rest where
    img: "from_url urlparse key (Some sz) (Some dt) = Inr img"
    and rest: "from_urls urlparse cs = Inr rest" and images: "images = img # rest"
    by (auto split: sum.splits)
  from img have "mdate img = Some dt" by (rule from_url_mdate)
  with Cons.IH[OF rest] images show ?case by simp
qed

lemma list_images_mdate:
  "list_images urljoin urlparse cp b l = Inr images \<Longrightarrow> \<forall>img\<in>set images. mdate img \<noteq> None"
  unfolding list_images_def Let_def by (rule from_urls_mdate)

lemma sort_results_set:
  "\<forall>r\<in>set rs. mdate r \<noteq> None
     \<Longrightarrow> \<exists>results. sort_results rs = Inr results \<and> set results = set rs"
  by (simp add: sort_results_total)

lemma normalize_type_fields:
  "opt_board (normalize_type opts) = opt_board opts"
  "opt_language (normalize_type opts) = opt_language opts"
  "release_ok (normalize_type opts) img = release_ok opts img"
  by (auto simp: normalize_type_def release_ok_def split: option.splits)

lemma filtered_none:
  "\<forall>img\<in>set results. \<not> release_ok opts img \<Longrightarrow> filtered opts results = []"
  by (induction results) auto

text \<open>
  C6. When \<^verbatim>\<open>list_images\<close> returns a list on which no record passes the release
  condition of the filter, the selection, and \<^verbatim>\<open>get\<close> with it, ends with the outcome
  that no image was found; it does not raise.
\<close>

theorem get_no_release_ok:
  assumes "list_images urljoin urlparse cp (opt_board opts) (opt_language opts) = Inr images"
    and "\<forall>img\<in>set images. \<not> release_ok opts img"
  shows "select opts images = Inr No_images_found
       \<and> get urljoin urlparse cp opts = Inr No_images_found"
proof -
  from assms(1) have "\<forall>img\<in>set images. mdate img \<noteq> None"
    by (rule list_images_mdate)
  then obtain results where results: "sort_results images = Inr results" "set results = set images"
    using sort_results_set by blast
  with assms(2) have "filtered opts results = []" "filtered (normalize_type opts) results = []"
    by (auto intro!: filtered_none simp: normalize_type_fields)
  with results assms(1) show ?thesis
    by (simp add: get_def Let_def normalize_type_fields select_def selected_def)
qed

theorem get_no_release_ok_witness:
  "list_images urljoin_key urlparse_path sample_cp ''pyportal'' ''de_DE''
     = Inr [sample_image ''de_DE'' ''20220901-abc123'' ''.uf2'' (sample_time 2022 9 1)]
   \<and> \<not> release_ok (sample_options ''de_DE'' None (Some ''uf2'') False False)
         (sample_image ''de_DE'' ''20220901-abc123'' ''.uf2'' (sample_time 2022 9 1))
   \<and> get urljoin_key urlparse_path sample_cp (sample_options ''de_DE'' None (Some ''uf2'') False False)
     = Inr No_images_found"
proof -
  let ?opts = "sample_options ''de_DE'' None (Some ''uf2'') False False"
  let ?img = "sample_image ''de_DE'' ''20220901-abc123'' ''.uf2'' (sample_time 2022 9 1)"
  have l: "list_images urljoin_key urlparse_path sample_cp ''pyportal'' ''de_DE'' = Inr [?img]"
    by code_simp
  then have l': "list_images urljoin_key urlparse_path sample_cp (opt_board ?opts) (opt_language ?opts)
      = Inr [?img]"
    by (simp add: sample_options_def)
  have no: "\<not> release_ok ?opts ?img"
    by code_simp
  then have "\<forall>img\<in>set [?img]. \<not> release_ok ?opts img" by simp
  with l' have "select ?opts [?img] = Inr No_images_found
      \<and> get urljoin_key urlparse_path sample_cp ?opts = Inr No_images_found"
    by (rule get_no_release_ok)
  with l no show ?thesis by blast
qed

subsection \<open>\<^verbatim>\<open>list_boards\<close> and \<^verbatim>\<open>list_languages\<close>\<close>

lemma yield_names_all_match:
  "\<forall>key\<in>set keys. contains s key \<Longrightarrow> yield_names (Some s) keys = yield_names None keys"
  by (induction keys) (auto split: sum.splits prod.splits)

lemma sublist_of_prefix:
  assumes "sublist s base" and "prefix base key"
  shows "sublist s key"
proof -
  from assms(1) obtain ps ss where "base = ps @ s @ ss" by (auto simp: sublist_def)
  moreover from assms(2) obtain zs where "key = base @ zs" by (auto simp: prefix_def)
  ultimately have "key = ps @ s @ (ss @ zs)" by simp
  then show ?thesis unfolding sublist_def by blast
qed

lemma yield_names_filter:
  "yield_names (Some s) keys = yield_names None (filter (sublist s) keys)"
  by (induction keys) (auto simp: contains_iff_sublist split: sum.splits prod.splits)

text \<open>
  C10. The search of \<^verbatim>\<open>list_boards\<close> and \<^verbatim>\<open>list_languages\<close> is run on the whole URL
  that \<^verbatim>\<open>urljoin\<close> makes from the bucket URL and the prefix, not on the name that is
  yielded: the names yielded are those of the joined URLs in which the search string
  occurs. So when the URLs joined from the prefixes of the listing start with the bucket
  URL (as they do when the bucket URL has no path and the prefixes are the relative paths
  that a listing under \<^verbatim>\<open>bin/\<close> holds), a search string that occurs in the bucket URL
  passes every entry of the listing, and the same names are yielded as with no search at
  all.
\<close>

theorem search_runs_on_joined_url:
  "list_boards urljoin self (Some s)
     = yield_names None
         (filter (sublist s)
            (map (urljoin (bucket_url self)) (CommonPrefixes (list' self ''bin/''))))
   \<and> list_languages urljoin self b (Some s)
     = yield_names None
         (filter (sublist s)
            (map (urljoin (bucket_url self)) (CommonPrefixes (list' self (''bin/'' @ b @ ''/'')))))
   \<and> (sublist s (bucket_url self)
        \<and> (\<forall>p\<in>set (CommonPrefixes (list' self ''bin/'')).
              prefix (bucket_url self) (urljoin (bucket_url self) p))
      \<longrightarrow> list_boards urljoin self (Some s) = list_boards urljoin self None)
   \<and> (sublist s (bucket_url self)
        \<and> (\<forall>p\<in>set (CommonPrefixes (list' self (''bin/'' @ b @ ''/''))).
              prefix (bucket_url self) (urljoin (bucket_url self) p))
      \<longrightarrow> list_languages urljoin self b (Some s) = list_languages urljoin self b None)"
proof (intro conjI impI)
  show "list_boards urljoin self (Some s)
     = yield_names None
         (filter (sublist s)
            (map (urljoin (bucket_url self)) (CommonPrefixes (list' self ''bin/''))))"
    by (simp add: list_boards_def Let_def parse_common_prefixes_def yield_names_filter)
  show "list_languages urljoin self b (Some s)
     = yield_names None
         (filter (sublist s)
            (map (urljoin (bucket_url self)) (CommonPrefixes (list' self (''bin/'' @ b @ ''/'')))))"
    by (simp add: list_languages_def Let_def parse_common_prefixes_def yield_names_filter)
next
  assume "sublist s (bucket_url self)
        \<and> (\<forall>p\<in>set (CommonPrefixes (list' self ''bin/'')).
              prefix (bucket_url self) (urljoin (bucket_url self) p))"
  then have "\<forall>key\<in>set (parse_common_prefixes urljoin self (list' self ''bin/'')). contains s key"
    by (auto simp: parse_common_prefixes_def contains_iff_sublist intro: sublist_of_prefix)
  then show "list_boards urljoin self (Some s) = list_boards urljoin self None"
    by (simp add: list_boards_def Let_def yield_names_all_match)
next
  assume "sublist s (bucket_url self)
        \<and> (\<forall>p\<in>set (CommonPrefixes (list' self (''bin/'' @ b @ ''/''))).
              prefix (bucket_url self) (urljoin (bucket_url self) p))"
  then have "\<forall>key\<in>set (parse_common_prefixes urljoin self (list' self (''bin/'' @ b @ ''/''))).
      contains s key"
    by (auto simp: parse_common_prefixes_def contains_iff_sublist intro: sublist_of_prefix)
  then show "list_languages urljoin self b (Some s) = list_languages urljoin self b None"
    by (simp add: list_languages_def Let_def yield_names_all_match)
qed

text \<open>
  In the sample bucket the prefixes are plain relative paths, joined under the bucket URL.
  The search string \<^verbatim>\<open>amazonaws\<close> occurs in no board name and in no language name; it
  occurs in the bucket URL, and every board and every language is yielded.
\<close>

theorem search_runs_on_joined_url_witness:
  "map (urljoin_key (bucket_url sample_cp)) (CommonPrefixes (list' sample_cp ''bin/''))
     = [''https://adafruit-circuit-python.s3.amazonaws.com/bin/feather_m4_express/'',
        ''https://adafruit-circuit-python.s3.amazonaws.com/bin/pyportal/'']
   \<and> \<not> sublist ''amazonaws'' ''feather_m4_express'' \<and> \<not> sublist ''amazonaws'' ''pyportal''
   \<and> list_boards urljoin_key sample_cp (Some ''amazonaws'')
       = ([''feather_m4_express'', ''pyportal''], None)
   \<and> list_languages urljoin_key sample_cp ''pyportal'' (Some ''amazonaws'')
       = ([''de_DE'', ''en_US''], None)
   \<and> list_boards urljoin_key sample_cp (Some ''portal'') = ([''pyportal''], None)"
proof -
  have k: "map (urljoin_key (bucket_url sample_cp)) (CommonPrefixes (list' sample_cp ''bin/''))
     = [''https://adafruit-circuit-python.s3.amazonaws.com/bin/feather_m4_express/'',
        ''https://adafruit-circuit-python.s3.amazonaws.com/bin/pyportal/'']"
    by code_simp
  have s: "sublist ''amazonaws'' (bucket_url sample_cp)"
    by code_simp
  have jb: "\<forall>p\<in>set (CommonPrefixes (list' sample_cp ''bin/'')).
      prefix (bucket_url sample_cp) (urljoin_key (bucket_url sample_cp) p)"
    by code_simp
  have jl: "\<forall>p\<in>set (CommonPrefixes (list' sample_cp (''bin/'' @ ''pyportal'' @ ''/''))).
      prefix (bucket_url sample_cp) (urljoin_key (bucket_url sample_cp) p)"
    by code_simp
  have n: "\<not> sublist ''amazonaws'' ''feather_m4_express''" "\<not> sublist ''amazonaws'' ''pyportal''"
    by code_simp+
  have b: "list_boards urljoin_key sample_cp None = ([''feather_m4_express'', ''pyportal''], None)"
    by code_simp
  have l: "list_languages urljoin_key sample_cp ''pyportal'' None = ([''de_DE'', ''en_US''], None)"
    by code_simp
  have p: "list_boards urljoin_key sample_cp (Some ''portal'') = ([''pyportal''], None)"
    by code_simp
  from search_runs_on_joined_url[of urljoin_key sample_cp "''amazonaws''" "''pyportal''"] s jb jl
  have "list_boards urljoin_key sample_cp (Some ''amazonaws'') = list_boards urljoin_key sample_cp None"
    and "list_languages urljoin_key sample_cp ''pyportal'' (Some ''amazonaws'')
      = list_languages urljoin_key sample_cp ''pyportal'' None"
    by blast+
  with b l
  have "list_boards urljoin_key sample_cp (Some ''amazonaws'')
       = ([''feather_m4_express'', ''pyportal''], None)"
    and "list_languages urljoin_key sample_cp ''pyportal'' (Some ''amazonaws'')
       = ([''de_DE'', ''en_US''], None)"
    by (simp_all only:)
  with k n p show ?thesis by (intro conjI)
qed

end
